theory Spec2Isabelle
  imports Complex_Main
begin

section \<open>Python values and errors\<close>

text \<open>
  The two scripts \<^verbatim>\<open>pyomo_model_1.py\<close> and \<^verbatim>\<open>sympy_system.py\<close> are straight-line
  programs over three module-level integers. Exceptions are values of the type
  \<open>error\<close>. \<open>ZeroDivisionError\<close> is raised by Python's \<^verbatim>\<open>/\<close>, \<open>ValueError\<close> by
  \<^verbatim>\<open>int()\<close> on a string that is no decimal literal, by a Pyomo parameter whose value is
  outside its declared domain and by \<^verbatim>\<open>pyo.value\<close> on a variable that holds no value,
  \<open>AssertionError\<close> by a failed \<^verbatim>\<open>assert\<close>, \<open>TypeError\<close> by SymPy when a number that
  is not finite is compared. \<open>ConfigurationError\<close> and
  \<open>SolutionDecodeError\<close> are the names the specification uses; no statement of either script
  raises them. Python floats are idealised as real numbers.
\<close>

datatype error =
  ZeroDivisionError | ValueError | AssertionError | TypeError |
  ConfigurationError | SolutionDecodeError

definition then_do :: "error + 'a \<Rightarrow> ('a \<Rightarrow> error + 'b) \<Rightarrow> error + 'b" where
  "then_do r k = (case r of Inl err \<Rightarrow> Inl err | Inr a \<Rightarrow> k a)"

definition truediv :: "real \<Rightarrow> real \<Rightarrow> error + real" where
  \<comment> \<open>Python's \<^verbatim>\<open>a / b\<close> on numbers\<close>
  "truediv a b = (if b = 0 then Inl ZeroDivisionError else Inr (a / b))"

definition py_range :: "int \<Rightarrow> nat list" where
  \<comment> \<open>\<^verbatim>\<open>range(size)\<close>: empty for a size that is not positive\<close>
  "py_range sz = [0..<nat sz]"

subsection \<open>Strings\<close>

definition digits :: string where
  "digits = ''0123456789''"

definition ascii_letters :: string where
  "ascii_letters = ''abcdefghijklmnopqrstuvwxyzABCDEFGHIJKLMNOPQRSTUVWXYZ''"

definition lstrip :: "string \<Rightarrow> string \<Rightarrow> string" where
  \<comment> \<open>\<^verbatim>\<open>member.lstrip(chars)\<close>\<close>
  "lstrip member chars = dropWhile (\<lambda>ch. ch \<in> set chars) member"

definition rstrip :: "string \<Rightarrow> string \<Rightarrow> string" where
  \<comment> \<open>\<^verbatim>\<open>member.rstrip(chars)\<close>\<close>
  "rstrip member chars = rev (dropWhile (\<lambda>ch. ch \<in> set chars) (rev member))"

fun str :: "nat \<Rightarrow> string" where
  \<comment> \<open>the decimal text of a number that is not negative, as an f-string prints it\<close>
  "str k = (if k < 10 then [digits ! k] else str (k div 10) @ [digits ! (k mod 10)])"

declare str.simps [simp del]

definition digit_value :: "char \<Rightarrow> nat" where
  "digit_value ch = of_char ch - 48"

definition int_of_string :: "string \<Rightarrow> error + int" where
  \<comment> \<open>\<^verbatim>\<open>int(text)\<close> on a string of decimal digits; the empty string and a string with
      any other character are no literal here (the signs, blanks and underscores Python
      also reads never reach it from a generated member name)\<close>
  "int_of_string text =
     (if text \<noteq> [] \<and> (\<forall>ch \<in> set text. ch \<in> set digits)
      then Inr (int (foldl (\<lambda>acc ch. 10 * acc + digit_value ch) 0 text))
      else Inl ValueError)"

subsection \<open>Functions for set utility operations\<close>

definition init_set :: "string \<Rightarrow> int \<Rightarrow> string list" where
  "init_set letter sz = map (\<lambda>k. letter @ str (k + 1)) (py_range sz)"

definition get_letter :: "string \<Rightarrow> string" where
  "get_letter member = rstrip member digits"

definition get_int :: "string \<Rightarrow> error + int" where
  "get_int member = int_of_string (lstrip member ascii_letters)"

definition union_list :: "'a list \<Rightarrow> 'a list \<Rightarrow> 'a list" where
  \<comment> \<open>the union \<^verbatim>\<open>|\<close> of two ordered Pyomo sets\<close>
  "union_list xs ys = xs @ filter (\<lambda>b. b \<notin> set xs) ys"

definition inter_list :: "'a list \<Rightarrow> 'a list \<Rightarrow> 'a list" where
  \<comment> \<open>the intersection \<^verbatim>\<open>&\<close> of two ordered Pyomo sets\<close>
  "inter_list xs ys = filter (\<lambda>a. a \<in> set ys) xs"

type_synonym route = "string \<times> string"

definition B_filter :: "string \<Rightarrow> string \<Rightarrow> error + bool" where
  "B_filter p q =
     (if get_letter p = ''i'' \<and> get_letter q = ''j'' then Inr False
      else if get_letter p = get_letter q \<and> get_letter q = ''s''
      then then_do (get_int p) (\<lambda>a. then_do (get_int q) (\<lambda>b.
             if a = b then Inr False else Inr True))
      else Inr True)"

fun filter_set :: "('a \<Rightarrow> error + bool) \<Rightarrow> 'a list \<Rightarrow> error + 'a list" where
  \<comment> \<open>a Pyomo set built with \<^verbatim>\<open>filter=\<close>: the members the filter accepts, in order;
      an exception of the filter ends the construction\<close>
  "filter_set keep [] = Inr []"
| "filter_set keep (a # as) =
     then_do (keep a) (\<lambda>ok. then_do (filter_set keep as) (\<lambda>rest.
       Inr (if ok then a # rest else rest)))"

section \<open>The mixed-integer model of \<^verbatim>\<open>pyomo_model_1.py\<close>\<close>

subsection \<open>Derived values for inbound and outbound traffic\<close>

record derived =
  cargos :: int
  throughput :: int
  v_in :: real
  v_out :: real
  t_in :: real
  t_out :: real

definition derive :: "int \<Rightarrow> int \<Rightarrow> error + derived" where
  "derive inbounds outbounds =
     (let cargos0 = inbounds;
          throughput0 = min inbounds outbounds
      in then_do (truediv (of_int throughput0) (of_int inbounds)) (\<lambda>v_in0.
         then_do (truediv (of_int throughput0) (of_int outbounds)) (\<lambda>v_out0.
         then_do (truediv v_in0 1) (\<lambda>t_in0.
         then_do (truediv v_out0 (of_int cargos0)) (\<lambda>t_out0.
           Inr \<lparr>cargos = cargos0, throughput = throughput0, v_in = v_in0,
                v_out = v_out0, t_in = t_in0, t_out = t_out0\<rparr>)))))"

subsection \<open>Domains\<close>

definition Binary :: "real \<Rightarrow> bool" where
  "Binary r = (r = 0 \<or> r = 1)"

definition PercentFraction :: "real \<Rightarrow> bool" where
  "PercentFraction r = (0 \<le> r \<and> r \<le> 1)"

definition NonNegativeIntegers :: "real \<Rightarrow> bool" where
  "NonNegativeIntegers r = (0 \<le> r \<and> of_int \<lfloor>r\<rfloor> = r)"

definition NonNegativeReals :: "real \<Rightarrow> bool" where
  "NonNegativeReals r = (0 \<le> r)"

definition PositiveReals :: "real \<Rightarrow> bool" where
  "PositiveReals r = (0 < r)"

subsection \<open>Sets and parameters\<close>

type_synonym cargo_route = "string \<times> string \<times> string"

record model =
  I :: "string list"
  J :: "string list"
  S :: "string list"
  C :: "string list"
  P :: "string list"
  Q :: "string list"
  B :: "route list"
  IxC :: "(string \<times> string) list"
  JxC :: "(string \<times> string) list"
  SxC :: "(string \<times> string) list"
  BxC :: "cargo_route list"
  W :: "route list"
  WxC :: "cargo_route list"
  f :: "string \<times> string \<rightharpoonup> real"
  g :: "string \<times> string \<rightharpoonup> real"
  u_t :: real
  u_x :: real

definition flat_product :: "route list \<Rightarrow> string list \<Rightarrow> cargo_route list" where
  \<comment> \<open>the product of a set of pairs with a set: Pyomo flattens its members to triples\<close>
  "flat_product rs cs = map (\<lambda>((p, q), c). (p, q, c)) (List.product rs cs)"

definition f_init :: "derived \<Rightarrow> string \<Rightarrow> string \<Rightarrow> error + real" where
  "f_init d i c =
     then_do (get_int i) (\<lambda>a. then_do (get_int c) (\<lambda>b.
       if a = b then Inr (t_in d) else Inr 0))"

fun init_param ::
  "('k \<Rightarrow> error + real) \<Rightarrow> (real \<Rightarrow> bool) \<Rightarrow> 'k list \<Rightarrow> error + ('k \<times> real) list" where
  \<comment> \<open>a Pyomo parameter built with \<^verbatim>\<open>initialize=\<close> and \<^verbatim>\<open>domain=\<close>: one value for each
      index, refused with a ValueError when it is outside the domain\<close>
  "init_param rule domain [] = Inr []"
| "init_param rule domain (k # ks) =
     then_do (rule k) (\<lambda>val.
       if domain val
       then then_do (init_param rule domain ks) (\<lambda>rest. Inr ((k, val) # rest))
       else Inl ValueError)"

definition default_param ::
  "real \<Rightarrow> (real \<Rightarrow> bool) \<Rightarrow> 'k list \<Rightarrow> error + ('k \<rightharpoonup> real)" where
  \<comment> \<open>a Pyomo parameter built with \<^verbatim>\<open>default=\<close> and \<^verbatim>\<open>domain=\<close>: the default at
      every index, refused with a ValueError when it is outside the domain\<close>
  "default_param val domain ks =
     (if domain val then Inr (\<lambda>k. if k \<in> set ks then Some val else None)
      else Inl ValueError)"

definition scalar_param :: "real \<Rightarrow> (real \<Rightarrow> bool) \<Rightarrow> error + real" where
  \<comment> \<open>a Pyomo parameter without an index, built with \<^verbatim>\<open>default=\<close> and \<^verbatim>\<open>domain=\<close>\<close>
  "scalar_param val domain = (if domain val then Inr val else Inl ValueError)"

definition generate :: "int \<Rightarrow> int \<Rightarrow> int \<Rightarrow> error + model" where
  \<comment> \<open>lines 11 to 131 of the script, in its order\<close>
  "generate inbounds outbounds splitters =
     then_do (derive inbounds outbounds) (\<lambda>d.
       let I0 = init_set ''i'' inbounds;
           J0 = init_set ''j'' outbounds;
           S0 = init_set ''s'' splitters;
           C0 = init_set ''c'' (cargos d);
           P0 = union_list I0 S0;
           Q0 = union_list S0 J0
       in then_do (filter_set (\<lambda>(p, q). B_filter p q) (List.product P0 Q0)) (\<lambda>B0.
       let IxC0 = List.product I0 C0;
           JxC0 = List.product J0 C0;
           SxC0 = List.product S0 C0;
           BxC0 = flat_product B0 C0;
           W0 = inter_list (List.product S0 Q0) B0;
           WxC0 = flat_product W0 C0
       in then_do (init_param (\<lambda>(i, c). f_init d i c) PercentFraction IxC0) (\<lambda>f0.
          then_do (default_param (t_out d) PercentFraction JxC0) (\<lambda>g0.
          then_do (scalar_param 1 PositiveReals) (\<lambda>u_t0.
          then_do (scalar_param 2 PositiveReals) (\<lambda>u_x0.
            Inr \<lparr>I = I0, J = J0, S = S0, C = C0, P = P0, Q = Q0, B = B0,
                 IxC = IxC0, JxC = JxC0, SxC = SxC0, BxC = BxC0, W = W0, WxC = WxC0,
                 f = map_of f0, g = g0, u_t = u_t0, u_x = u_x0\<rparr>))))))"

subsection \<open>Variables\<close>

text \<open>
  An assignment gives every variable of the model a value, as the solver does. The
  domain declared for a variable is part of what makes an assignment feasible.
\<close>

record assignment =
  e :: "route \<Rightarrow> real"
  t :: "cargo_route \<Rightarrow> real"
  v :: "route \<Rightarrow> real"
  n :: "string \<Rightarrow> real"
  m :: "string \<Rightarrow> real"
  x :: "string \<times> string \<Rightarrow> real"
  y :: "string \<times> string \<Rightarrow> real"
  z :: "string \<Rightarrow> real"
  xe :: "cargo_route \<Rightarrow> real"
  tz :: "cargo_route \<Rightarrow> real"

definition domains :: "model \<Rightarrow> assignment \<Rightarrow> bool" where
  "domains md a =
     ((\<forall>r \<in> set (B md). Binary (e a r)) \<and>
      (\<forall>k \<in> set (BxC md). PercentFraction (t a k)) \<and>
      (\<forall>r \<in> set (B md). PercentFraction (v a r)) \<and>
      (\<forall>s \<in> set (S md). NonNegativeIntegers (n a s)) \<and>
      (\<forall>s \<in> set (S md). NonNegativeIntegers (m a s)) \<and>
      (\<forall>k \<in> set (SxC md). NonNegativeReals (x a k)) \<and>
      (\<forall>k \<in> set (SxC md). NonNegativeReals (y a k)) \<and>
      (\<forall>s \<in> set (S md). Binary (z a s)) \<and>
      (\<forall>k \<in> set (WxC md). NonNegativeReals (xe a k)) \<and>
      (\<forall>k \<in> set (WxC md). PercentFraction (tz a k)))"

subsection \<open>Constraints\<close>

definition routes_into :: "model \<Rightarrow> string \<Rightarrow> route list" where
  \<comment> \<open>\<^verbatim>\<open>for p, q in model.B if q == s\<close>\<close>
  "routes_into md s = filter (\<lambda>(p, q). q = s) (B md)"

definition routes_from :: "model \<Rightarrow> string \<Rightarrow> route list" where
  \<comment> \<open>\<^verbatim>\<open>for p, q in model.B if p == s\<close>\<close>
  "routes_from md s = filter (\<lambda>(p, q). p = s) (B md)"

definition define_volume_rule :: "model \<Rightarrow> assignment \<Rightarrow> string \<Rightarrow> string \<Rightarrow> bool" where
  "define_volume_rule md a p q = (v a (p, q) = sum_list (map (\<lambda>c. t a (p, q, c)) (C md)))"

definition define_num_inputs_rule :: "model \<Rightarrow> assignment \<Rightarrow> string \<Rightarrow> bool" where
  "define_num_inputs_rule md a s = (n a s = sum_list (map (\<lambda>(p, q). e a (p, q)) (routes_into md s)))"

definition define_num_outputs_rule :: "model \<Rightarrow> assignment \<Rightarrow> string \<Rightarrow> bool" where
  "define_num_outputs_rule md a s = (m a s = sum_list (map (\<lambda>(p, q). e a (p, q)) (routes_from md s)))"

definition define_inflow_rule :: "model \<Rightarrow> assignment \<Rightarrow> string \<Rightarrow> string \<Rightarrow> bool" where
  "define_inflow_rule md a s c =
     (x a (s, c) = sum_list (map (\<lambda>(p, q). t a (p, q, c)) (routes_into md s)))"

definition define_outflow_rule :: "model \<Rightarrow> assignment \<Rightarrow> string \<Rightarrow> string \<Rightarrow> bool" where
  "define_outflow_rule md a s c =
     (y a (s, c) = sum_list (map (\<lambda>(p, q). t a (p, q, c)) (routes_from md s)))"

definition force_xe_1_rule :: "model \<Rightarrow> assignment \<Rightarrow> string \<Rightarrow> string \<Rightarrow> string \<Rightarrow> bool" where
  "force_xe_1_rule md a s q c = (xe a (s, q, c) \<le> u_x md * e a (s, q))"

definition force_xe_2_rule :: "model \<Rightarrow> assignment \<Rightarrow> string \<Rightarrow> string \<Rightarrow> string \<Rightarrow> bool" where
  "force_xe_2_rule md a s q c = (xe a (s, q, c) \<le> x a (s, c))"

definition force_xe_3_rule :: "model \<Rightarrow> assignment \<Rightarrow> string \<Rightarrow> string \<Rightarrow> string \<Rightarrow> bool" where
  "force_xe_3_rule md a s q c = (xe a (s, q, c) \<ge> x a (s, c) - u_x md * (1 - e a (s, q)))"

definition force_tz_1_rule :: "model \<Rightarrow> assignment \<Rightarrow> string \<Rightarrow> string \<Rightarrow> string \<Rightarrow> bool" where
  "force_tz_1_rule md a s q c = (tz a (s, q, c) \<le> u_t md * z a s)"

definition force_tz_2_rule :: "model \<Rightarrow> assignment \<Rightarrow> string \<Rightarrow> string \<Rightarrow> string \<Rightarrow> bool" where
  "force_tz_2_rule md a s q c = (tz a (s, q, c) \<le> t a (s, q, c))"

definition force_tz_3_rule :: "model \<Rightarrow> assignment \<Rightarrow> string \<Rightarrow> string \<Rightarrow> string \<Rightarrow> bool" where
  "force_tz_3_rule md a s q c = (tz a (s, q, c) \<ge> t a (s, q, c) - u_t md * (1 - z a s))"

definition connect_inbounds_rule :: "model \<Rightarrow> assignment \<Rightarrow> string \<Rightarrow> bool" where
  "connect_inbounds_rule md a i = (sum_list (map (\<lambda>(p, q). e a (p, q)) (routes_from md i)) = 1)"

definition connect_outbounds_rule :: "model \<Rightarrow> assignment \<Rightarrow> string \<Rightarrow> bool" where
  "connect_outbounds_rule md a j = (sum_list (map (\<lambda>(p, q). e a (p, q)) (routes_into md j)) = 1)"

definition consume_inbounds_rule :: "model \<Rightarrow> assignment \<Rightarrow> string \<Rightarrow> string \<Rightarrow> bool" where
  "consume_inbounds_rule md a i c =
     (Some (sum_list (map (\<lambda>(p, q). t a (p, q, c)) (routes_from md i))) = f md (i, c))"

definition produce_outbounds_rule :: "model \<Rightarrow> assignment \<Rightarrow> string \<Rightarrow> string \<Rightarrow> bool" where
  "produce_outbounds_rule md a j c =
     (Some (sum_list (map (\<lambda>(p, q). t a (p, q, c)) (routes_into md j))) = g md (j, c))"

definition respect_capacity_rule :: "model \<Rightarrow> assignment \<Rightarrow> string \<Rightarrow> string \<Rightarrow> bool" where
  "respect_capacity_rule md a p q = (v a (p, q) \<le> e a (p, q))"

definition splitters_conserve_rule :: "model \<Rightarrow> assignment \<Rightarrow> string \<Rightarrow> string \<Rightarrow> bool" where
  "splitters_conserve_rule md a s c = (x a (s, c) = y a (s, c))"

definition min_inputs_rule :: "model \<Rightarrow> assignment \<Rightarrow> string \<Rightarrow> bool" where
  "min_inputs_rule md a s = (n a s \<ge> z a s)"

definition max_inputs_rule :: "model \<Rightarrow> assignment \<Rightarrow> string \<Rightarrow> bool" where
  "max_inputs_rule md a s = (n a s \<le> 2)"

definition min_outputs_rule :: "model \<Rightarrow> assignment \<Rightarrow> string \<Rightarrow> bool" where
  "min_outputs_rule md a s = (m a s \<ge> 2 * z a s)"

definition max_outputs_rule :: "model \<Rightarrow> assignment \<Rightarrow> string \<Rightarrow> bool" where
  "max_outputs_rule md a s = (m a s \<le> 1 + z a s)"

definition split_evenly_rule :: "model \<Rightarrow> assignment \<Rightarrow> string \<Rightarrow> string \<Rightarrow> string \<Rightarrow> bool" where
  "split_evenly_rule md a s q c = (xe a (s, q, c) = t a (s, q, c) + tz a (s, q, c))"

definition linearization :: "model \<Rightarrow> assignment \<Rightarrow> string \<Rightarrow> string \<Rightarrow> string \<Rightarrow> bool" where
  \<comment> \<open>the seven constraints the script emits for one member of \<^verbatim>\<open>model.WxC\<close>\<close>
  "linearization md a s q c =
     (force_xe_1_rule md a s q c \<and> force_xe_2_rule md a s q c \<and> force_xe_3_rule md a s q c \<and>
      force_tz_1_rule md a s q c \<and> force_tz_2_rule md a s q c \<and> force_tz_3_rule md a s q c \<and>
      split_evenly_rule md a s q c)"

definition constraints :: "model \<Rightarrow> assignment \<Rightarrow> bool" where
  "constraints md a =
     ((\<forall>(p, q) \<in> set (B md). define_volume_rule md a p q) \<and>
      (\<forall>s \<in> set (S md). define_num_inputs_rule md a s) \<and>
      (\<forall>s \<in> set (S md). define_num_outputs_rule md a s) \<and>
      (\<forall>(s, c) \<in> set (SxC md). define_inflow_rule md a s c) \<and>
      (\<forall>(s, c) \<in> set (SxC md). define_outflow_rule md a s c) \<and>
      (\<forall>(s, q, c) \<in> set (WxC md). linearization md a s q c) \<and>
      (\<forall>i \<in> set (I md). connect_inbounds_rule md a i) \<and>
      (\<forall>j \<in> set (J md). connect_outbounds_rule md a j) \<and>
      (\<forall>(i, c) \<in> set (IxC md). consume_inbounds_rule md a i c) \<and>
      (\<forall>(j, c) \<in> set (JxC md). produce_outbounds_rule md a j c) \<and>
      (\<forall>(p, q) \<in> set (B md). respect_capacity_rule md a p q) \<and>
      (\<forall>(s, c) \<in> set (SxC md). splitters_conserve_rule md a s c) \<and>
      (\<forall>s \<in> set (S md). min_inputs_rule md a s) \<and>
      (\<forall>s \<in> set (S md). max_inputs_rule md a s) \<and>
      (\<forall>s \<in> set (S md). min_outputs_rule md a s) \<and>
      (\<forall>s \<in> set (S md). max_outputs_rule md a s))"

definition feasible :: "model \<Rightarrow> assignment \<Rightarrow> bool" where
  "feasible md a = (domains md a \<and> constraints md a)"

definition simultaneous_volume_rule :: "model \<Rightarrow> assignment \<Rightarrow> real" where
  "simultaneous_volume_rule md a = sum_list (map (\<lambda>(p, q). v a (p, q)) (B md))"

definition linearization_satisfiable ::
  "model \<Rightarrow> assignment \<Rightarrow> string \<Rightarrow> string \<Rightarrow> string \<Rightarrow> bool" where
  \<comment> \<open>some nonnegative values of \<^verbatim>\<open>xe[s, q, c]\<close> and \<^verbatim>\<open>tz[s, q, c]\<close> satisfy the seven
      constraints, the other variables being as the assignment has them\<close>
  "linearization_satisfiable md a s q c =
     (\<exists>xe0 tz0. NonNegativeReals xe0 \<and> NonNegativeReals tz0 \<and>
        linearization md
          (a\<lparr>xe := (xe a)((s, q, c) := xe0), tz := (tz a)((s, q, c) := tz0)\<rparr>) s q c)"

definition route_allowed :: "model \<Rightarrow> route \<Rightarrow> bool" where
  \<comment> \<open>neither a bypass from an inbound to an outbound belt nor a splitter looping on itself\<close>
  "route_allowed md =
     (\<lambda>(p, q). \<not> (p \<in> set (I md) \<and> q \<in> set (J md)) \<and> \<not> (p = q \<and> p \<in> set (S md)))"

subsection \<open>Total supply and demand\<close>




subsection \<open>Printing the solution\<close>

text \<open>
  The last lines of the script read the values of \<^verbatim>\<open>model.e\<close> and \<^verbatim>\<open>model.v\<close> with
  \<^verbatim>\<open>pyo.value\<close> and print one line for each route whose value of \<open>e\<close> exceeds \<open>0.5\<close>.
\<close>

definition pyo_value :: "real option \<Rightarrow> error + real" where
  \<comment> \<open>\<^verbatim>\<open>pyo.value\<close> of a variable: a variable that holds no value (none was declared with an
      initial one, so each holds one only once a solution is loaded) raises \<^verbatim>\<open>ValueError\<close>\<close>
  "pyo_value slot = (case slot of None \<Rightarrow> Inl ValueError | Some r \<Rightarrow> Inr r)"

fun print_connections ::
  "(route \<Rightarrow> real option) \<Rightarrow> (route \<Rightarrow> real option) \<Rightarrow> route list \<Rightarrow>
   error + (string \<times> string \<times> real) list" where
  \<comment> \<open>the loop over \<^verbatim>\<open>model.B\<close> that prints the solution, given the value slots of the variables
      \<^verbatim>\<open>model.e\<close> and \<^verbatim>\<open>model.v\<close>; a printed line is kept as the triple of its three fields\<close>
  "print_connections es vs [] = Inr []"
| "print_connections es vs ((p, q) # rs) =
     then_do (pyo_value (es (p, q))) (\<lambda>e0.
       if e0 > 0.5
       then then_do (pyo_value (vs (p, q))) (\<lambda>v0.
              then_do (print_connections es vs rs) (\<lambda>out. Inr ((p, q, v0) # out)))
       else print_connections es vs rs)"

definition loaded :: "('k \<Rightarrow> real) \<Rightarrow> 'k \<Rightarrow> real option" where
  \<comment> \<open>the value slots of a variable after a solution has been loaded into the model\<close>
  "loaded var = (\<lambda>k. Some (var k))"

definition unloaded :: "'k \<Rightarrow> real option" where
  \<comment> \<open>the value slots of a variable into which no solution has been loaded\<close>
  "unloaded = (\<lambda>k. None)"

section \<open>The symbolic system of \<^verbatim>\<open>sympy_system.py\<close>\<close>

text \<open>
  The second script builds the same index spaces as Python sets and the same parameters as
  exact SymPy numbers. SymPy does not raise on a division by zero: the quotient is
  \<^verbatim>\<open>zoo\<close> or \<^verbatim>\<open>nan\<close>, here \<open>NotFinite\<close>, and comparing such a number raises a TypeError.
  Names that the first script already uses carry a prime.
\<close>

datatype sp_number = Finite rat | NotFinite

fun sp_div :: "sp_number \<Rightarrow> rat \<Rightarrow> sp_number" where
  "sp_div (Finite a) b = (if b = 0 then NotFinite else Finite (a / b))"
| "sp_div NotFinite b = NotFinite"

record derived' =
  cargos' :: int
  throughput' :: int
  v_in' :: sp_number
  v_out' :: sp_number
  t_in' :: sp_number
  t_out' :: sp_number

definition derive' :: "int \<Rightarrow> int \<Rightarrow> derived'" where
  "derive' inbounds outbounds =
     (let cargos0 = inbounds;
          throughput0 = min inbounds outbounds;
          v_in0 = sp_div (Finite (of_int throughput0)) (of_int inbounds);
          v_out0 = sp_div (Finite (of_int throughput0)) (of_int outbounds);
          t_in0 = sp_div v_in0 1;
          t_out0 = sp_div v_out0 (of_int cargos0)
      in \<lparr>cargos' = cargos0, throughput' = throughput0, v_in' = v_in0,
           v_out' = v_out0, t_in' = t_in0, t_out' = t_out0\<rparr>)"

definition name_set :: "string \<Rightarrow> int \<Rightarrow> string set" where
  \<comment> \<open>\<^verbatim>\<open>{f"i{i+1}" for i in range(inbounds)}\<close>\<close>
  "name_set letter sz = (\<lambda>k. letter @ str (k + 1)) ` set (py_range sz)"

record system =
  I' :: "string set"
  J' :: "string set"
  S' :: "string set"
  C' :: "string set"
  P' :: "string set"
  Q' :: "string set"
  B' :: "route set"
  IxC' :: "(string \<times> string) set"
  JxC' :: "(string \<times> string) set"
  SxC' :: "(string \<times> string) set"
  BxC' :: "cargo_route set"
  SxQxC' :: "cargo_route set"
  f' :: "string \<times> string \<rightharpoonup> sp_number"
  g' :: "string \<times> string \<rightharpoonup> sp_number"
  u_t' :: sp_number
  u_x' :: sp_number

definition f_init' :: "derived' \<Rightarrow> string \<Rightarrow> string \<Rightarrow> error + sp_number" where
  "f_init' d i c =
     then_do (int_of_string (lstrip i ascii_letters)) (\<lambda>n_i.
     then_do (int_of_string (lstrip c ascii_letters)) (\<lambda>n_c.
       if n_i = n_c then Inr (t_in' d) else Inr (Finite 0)))"

definition f_dict ::
  "derived' \<Rightarrow> (string \<times> string) set \<Rightarrow> error + (string \<times> string \<rightharpoonup> sp_number)" where
  \<comment> \<open>\<^verbatim>\<open>{(i, c): f_init(i, c) for i, c in IxC}\<close>; the only exception \<^verbatim>\<open>f_init\<close> can raise
      is the ValueError of \<^verbatim>\<open>int()\<close>\<close>
  "f_dict d keys =
     (if \<forall>(i, c) \<in> keys. f_init' d i c \<noteq> Inl ValueError
      then Inr (\<lambda>(i, c). if (i, c) \<in> keys
                         then (case f_init' d i c of Inr val \<Rightarrow> Some val | Inl err \<Rightarrow> None)
                         else None)
      else Inl ValueError)"

definition assert_fraction :: "sp_number \<Rightarrow> error + unit" where
  \<comment> \<open>\<^verbatim>\<open>assert 0 <= value <= 1\<close>\<close>
  "assert_fraction val =
     (case val of
        NotFinite \<Rightarrow> Inl TypeError
      | Finite r \<Rightarrow> if 0 \<le> r \<and> r \<le> 1 then Inr () else Inl AssertionError)"

definition assert_fractions ::
  "(string \<times> string \<rightharpoonup> sp_number) \<Rightarrow> (string \<times> string) set \<Rightarrow> error + unit" where
  \<comment> \<open>\<^verbatim>\<open>for value in f.values(): assert 0 <= value <= 1\<close> over a dictionary with the given
      keys. Were both kinds of failure present, the one Python meets first would depend on
      its iteration order; the model then reports the TypeError.\<close>
  "assert_fractions dict keys =
     (if \<forall>k \<in> keys. \<exists>val \<in> set_option (dict k). assert_fraction val = Inr () then Inr ()
      else if \<forall>k \<in> keys. \<forall>val \<in> set_option (dict k). assert_fraction val \<noteq> Inl TypeError
      then Inl AssertionError
      else Inl TypeError)"

definition assert_positive :: "sp_number \<Rightarrow> error + unit" where
  \<comment> \<open>\<^verbatim>\<open>assert u_t > 0\<close>\<close>
  "assert_positive val =
     (case val of
        NotFinite \<Rightarrow> Inl TypeError
      | Finite r \<Rightarrow> if 0 < r then Inr () else Inl AssertionError)"

definition generate' :: "int \<Rightarrow> int \<Rightarrow> int \<Rightarrow> error + system" where
  \<comment> \<open>lines 6 to 88 of the script, in its order\<close>
  "generate' inbounds outbounds splitters =
     (let d = derive' inbounds outbounds;
          I0 = name_set ''i'' inbounds;
          J0 = name_set ''j'' outbounds;
          S0 = name_set ''s'' splitters;
          C0 = name_set ''c'' (cargos' d);
          P0 = I0 \<union> S0;
          Q0 = J0 \<union> S0;
          B0 = P0 \<times> Q0;
          IxC0 = I0 \<times> C0;
          JxC0 = J0 \<times> C0;
          SxC0 = S0 \<times> C0;
          BxC0 = (\<lambda>((p, q), c). (p, q, c)) ` (B0 \<times> C0);
          SxQxC0 = (S0 \<times> Q0 \<times> C0) \<inter> BxC0
      in then_do (f_dict d IxC0) (\<lambda>f0.
         then_do (assert_fractions f0 IxC0) (\<lambda>u1.
         let g0 = (\<lambda>k. if k \<in> JxC0 then Some (t_out' d) else None)
         in then_do (assert_fractions g0 JxC0) (\<lambda>u2.
         let u_t0 = Finite 1
         in then_do (assert_positive u_t0) (\<lambda>u3.
         let u_x0 = Finite 2
         in then_do (assert_positive u_x0) (\<lambda>u4.
           Inr \<lparr>I' = I0, J' = J0, S' = S0, C' = C0, P' = P0, Q' = Q0, B' = B0,
                IxC' = IxC0, JxC' = JxC0, SxC' = SxC0, BxC' = BxC0, SxQxC' = SxQxC0,
                f' = f0, g' = g0, u_t' = u_t0, u_x' = u_x0\<rparr>))))))"

section \<open>Example models and assignments\<close>

definition md111 :: model where
  \<comment> \<open>one inbound belt, one outbound belt, one splitter\<close>
  "md111 =
     \<lparr>I = [''i1''], J = [''j1''], S = [''s1''], C = [''c1''],
      P = [''i1'', ''s1''], Q = [''s1'', ''j1''],
      B = [(''i1'', ''s1''), (''s1'', ''j1'')],
      IxC = [(''i1'', ''c1'')], JxC = [(''j1'', ''c1'')], SxC = [(''s1'', ''c1'')],
      BxC = [(''i1'', ''s1'', ''c1''), (''s1'', ''j1'', ''c1'')],
      W = [(''s1'', ''j1'')], WxC = [(''s1'', ''j1'', ''c1'')],
      f = map_of [((''i1'', ''c1''), 1)],
      g = (\<lambda>k. if k \<in> set [(''j1'', ''c1'')] then Some 1 else None),
      u_t = 1, u_x = 2\<rparr>"

definition a_half :: assignment where
  \<comment> \<open>a splitter with two active outputs: inflow 1, half of it on each output\<close>
  "a_half =
     \<lparr>e = (\<lambda>r. 1), t = (\<lambda>k. 1 / 2), v = (\<lambda>r. 1 / 2), n = (\<lambda>s. 1), m = (\<lambda>s. 2),
      x = (\<lambda>k. 1), y = (\<lambda>k. 1), z = (\<lambda>s. 1), xe = (\<lambda>k. 0), tz = (\<lambda>k. 0)\<rparr>"

definition md110 :: model where
  \<comment> \<open>one inbound belt, one outbound belt, no splitter\<close>
  "md110 =
     \<lparr>I = [''i1''], J = [''j1''], S = [], C = [''c1''],
      P = [''i1''], Q = [''j1''],
      B = [],
      IxC = [(''i1'', ''c1'')], JxC = [(''j1'', ''c1'')], SxC = [],
      BxC = [],
      W = [], WxC = [],
      f = map_of [((''i1'', ''c1''), 1)],
      g = (\<lambda>k. if k \<in> set [(''j1'', ''c1'')] then Some 1 else None),
      u_t = 1, u_x = 2\<rparr>"

definition a_line :: assignment where
  \<comment> \<open>for \<open>md111\<close>: the inbound belt runs into the splitter, which has the outbound belt as
      its one output\<close>
  "a_line =
     \<lparr>e = (\<lambda>r. 1), t = (\<lambda>k. 1), v = (\<lambda>r. 1), n = (\<lambda>s. 1), m = (\<lambda>s. 1),
      x = (\<lambda>k. 1), y = (\<lambda>k. 1), z = (\<lambda>s. 0), xe = (\<lambda>k. 1), tz = (\<lambda>k. 0)\<rparr>"

definition md112 :: model where
  \<comment> \<open>one inbound belt, one outbound belt, two splitters\<close>
  "md112 =
     \<lparr>I = [''i1''], J = [''j1''], S = [''s1'', ''s2''], C = [''c1''],
      P = [''i1'', ''s1'', ''s2''], Q = [''s1'', ''s2'', ''j1''],
      B = [(''i1'', ''s1''), (''i1'', ''s2''), (''s1'', ''s2''), (''s1'', ''j1''),
           (''s2'', ''s1''), (''s2'', ''j1'')],
      IxC = [(''i1'', ''c1'')], JxC = [(''j1'', ''c1'')],
      SxC = [(''s1'', ''c1''), (''s2'', ''c1'')],
      BxC = [(''i1'', ''s1'', ''c1''), (''i1'', ''s2'', ''c1''), (''s1'', ''s2'', ''c1''),
             (''s1'', ''j1'', ''c1''), (''s2'', ''s1'', ''c1''), (''s2'', ''j1'', ''c1'')],
      W = [(''s1'', ''s2''), (''s1'', ''j1''), (''s2'', ''s1''), (''s2'', ''j1'')],
      WxC = [(''s1'', ''s2'', ''c1''), (''s1'', ''j1'', ''c1''), (''s2'', ''s1'', ''c1''),
             (''s2'', ''j1'', ''c1'')],
      f = map_of [((''i1'', ''c1''), 1)],
      g = (\<lambda>k. if k \<in> set [(''j1'', ''c1'')] then Some 1 else None),
      u_t = 1, u_x = 2\<rparr>"

definition a_unused :: assignment where
  \<comment> \<open>for \<open>md112\<close>: the inbound belt runs into the splitter \<open>s1\<close>, which has the outbound belt
      as its one output; no belt touches the splitter \<open>s2\<close>\<close>
  "a_unused =
     \<lparr>e = (\<lambda>r. if r = (''i1'', ''s1'') \<or> r = (''s1'', ''j1'') then 1 else 0),
      t = (\<lambda>k. if k = (''i1'', ''s1'', ''c1'') \<or> k = (''s1'', ''j1'', ''c1'') then 1 else 0),
      v = (\<lambda>r. if r = (''i1'', ''s1'') \<or> r = (''s1'', ''j1'') then 1 else 0),
      n = (\<lambda>s. if s = ''s1'' then 1 else 0),
      m = (\<lambda>s. if s = ''s1'' then 1 else 0),
      x = (\<lambda>k. if k = (''s1'', ''c1'') then 1 else 0),
      y = (\<lambda>k. if k = (''s1'', ''c1'') then 1 else 0),
      z = (\<lambda>s. 0),
      xe = (\<lambda>k. if k = (''s1'', ''j1'', ''c1'') then 1 else 0),
      tz = (\<lambda>k. 0)\<rparr>"

section \<open>Properties\<close>

subsection \<open>Member names\<close>

lemma digit_in_digits: "k < 10 \<Longrightarrow> digits ! k \<in> set digits"
  by (rule nth_mem) (simp add: digits_def)

lemma digit_value_digits:
  "\<forall>k \<in> set [0..<10]. digit_value (digits ! k) = k"
  by code_simp

lemma digit_value_digit: "k < 10 \<Longrightarrow> digit_value (digits ! k) = k"
  using digit_value_digits by simp

lemma digits_letters_disjoint: "\<forall>ch \<in> set digits. ch \<notin> set ascii_letters"
  by code_simp

lemma digits_not_letters: "ch \<in> set digits \<Longrightarrow> ch \<notin> set ascii_letters"
  using digits_letters_disjoint by blast

lemma str_not_Nil: "str k \<noteq> []"
  by (subst str.simps) simp

lemma set_str: "set (str k) \<subseteq> set digits"
proof (induction k rule: str.induct)
  case (1 k)
  show ?case
  proof (cases "k < 10")
    case True
    then have "str k = [digits ! k]" by (subst str.simps) simp
    then show ?thesis using True by (simp add: digit_in_digits)
  next
    case False
    then have ih: "set (str (k div 10)) \<subseteq> set digits" using 1 by simp
    have d: "digits ! (k mod 10) \<in> set digits" by (simp add: digit_in_digits)
    have "str k = str (k div 10) @ [digits ! (k mod 10)]"
      using False by (subst str.simps) simp
    then show ?thesis using ih d by simp
  qed
qed

lemma value_str: "foldl (\<lambda>acc ch. 10 * acc + digit_value ch) 0 (str k) = k"
proof (induction k rule: str.induct)
  case (1 k)
  show ?case
  proof (cases "k < 10")
    case True
    then have "str k = [digits ! k]" by (subst str.simps) simp
    then show ?thesis using True by (simp add: digit_value_digit)
  next
    case False
    then have ih: "foldl (\<lambda>acc ch. 10 * acc + digit_value ch) 0 (str (k div 10)) = k div 10"
      using 1 by simp
    have d: "digit_value (digits ! (k mod 10)) = k mod 10"
      by (simp add: digit_value_digit)
    have "str k = str (k div 10) @ [digits ! (k mod 10)]"
      using False by (subst str.simps) simp
    then have "foldl (\<lambda>acc ch. 10 * acc + digit_value ch) 0 (str k) = 10 * (k div 10) + k mod 10"
      by (simp only: foldl_append foldl.simps ih d)
    then show ?thesis by simp
  qed
qed

lemma int_of_string_str: "int_of_string (str k) = Inr (int k)"
proof -
  have "\<forall>ch \<in> set (str k). ch \<in> set digits"
    using set_str [of k] by blast
  then show ?thesis
    unfolding int_of_string_def by (simp only: str_not_Nil value_str) simp
qed

lemma str_inject: "str a = str b \<longleftrightarrow> a = b"
proof
  assume "str a = str b"
  then have "foldl (\<lambda>acc ch. 10 * acc + digit_value ch) 0 (str a)
      = foldl (\<lambda>acc ch. 10 * acc + digit_value ch) 0 (str b)"
    by (rule arg_cong)
  then show "a = b" by (simp only: value_str)
qed simp

lemma lstrip_member:
  assumes "set letter \<subseteq> set ascii_letters"
  shows "lstrip (letter @ str k) ascii_letters = str k"
proof -
  have "hd (str k) \<in> set (str k)"
    using str_not_Nil by (rule hd_in_set)
  then have "hd (str k) \<in> set digits"
    using set_str [of k] by blast
  then have "hd (str k) \<notin> set ascii_letters" by (rule digits_not_letters)
  then have "dropWhile (\<lambda>ch. ch \<in> set ascii_letters) (str k) = str k"
    by (simp only: dropWhile_eq_self_iff) simp
  moreover have "dropWhile (\<lambda>ch. ch \<in> set ascii_letters) (letter @ str k)
      = dropWhile (\<lambda>ch. ch \<in> set ascii_letters) (str k)"
    using assms by (intro dropWhile_append2) blast
  ultimately show ?thesis by (simp only: lstrip_def)
qed

lemma get_int_member:
  "set letter \<subseteq> set ascii_letters \<Longrightarrow> get_int (letter @ str k) = Inr (int k)"
  by (simp only: get_int_def lstrip_member int_of_string_str)

lemma get_letter_member:
  assumes "letter \<noteq> []" "last letter \<notin> set digits"
  shows "get_letter (letter @ str k) = letter"
proof -
  have "dropWhile (\<lambda>ch. ch \<in> set digits) (rev (str k) @ rev letter)
      = dropWhile (\<lambda>ch. ch \<in> set digits) (rev letter)"
    using set_str [of k] by (intro dropWhile_append2) auto
  moreover have "hd (rev letter) \<notin> set digits"
    using assms by (simp add: hd_rev)
  then have "dropWhile (\<lambda>ch. ch \<in> set digits) (rev letter) = rev letter"
    by (simp only: dropWhile_eq_self_iff) simp
  ultimately show ?thesis by (simp only: get_letter_def rstrip_def rev_append rev_rev_ident)
qed

lemma letters_ok:
  "set ''i'' \<subseteq> set ascii_letters" "set ''j'' \<subseteq> set ascii_letters"
  "set ''s'' \<subseteq> set ascii_letters" "set ''c'' \<subseteq> set ascii_letters"
  by code_simp+

lemma letters_last:
  "last ''i'' \<notin> set digits" "last ''j'' \<notin> set digits"
  "last ''s'' \<notin> set digits" "last ''c'' \<notin> set digits"
  by code_simp+

lemma set_init_set: "set (init_set letter sz) = {letter @ str k |k. 1 \<le> k \<and> int k \<le> sz}"
proof (intro set_eqI iffI)
  fix a assume "a \<in> set (init_set letter sz)"
  then obtain k where "k < nat sz" "a = letter @ str (k + 1)"
    by (auto simp: init_set_def py_range_def)
  then have "1 \<le> k + 1 \<and> int (k + 1) \<le> sz \<and> a = letter @ str (k + 1)" by auto
  then show "a \<in> {letter @ str k |k. 1 \<le> k \<and> int k \<le> sz}" by blast
next
  fix a assume "a \<in> {letter @ str k |k. 1 \<le> k \<and> int k \<le> sz}"
  then obtain k where k: "1 \<le> k" "int k \<le> sz" "a = letter @ str k" by auto
  then have "k - 1 < nat sz" "a = letter @ str ((k - 1) + 1)" by auto
  then have "a \<in> (\<lambda>k. letter @ str (k + 1)) ` {0..<nat sz}" by (intro image_eqI [of _ _ "k - 1"]) auto
  then show "a \<in> set (init_set letter sz)" by (simp add: init_set_def py_range_def)
qed

lemma distinct_init_set: "distinct (init_set letter sz)"
  by (simp add: init_set_def py_range_def distinct_map inj_on_def str_inject)

lemma name_set_eq: "name_set letter sz = set (init_set letter sz)"
  by (simp add: name_set_def init_set_def)

subsection \<open>Evaluation of the generator\<close>

lemma then_do_simps [simp]: "then_do (Inr a) k = k a" "then_do (Inl err) k = Inl err"
  by (simp_all add: then_do_def)

lemma then_do_Inr: "then_do r k = Inr b \<longleftrightarrow> (\<exists>a. r = Inr a \<and> k a = Inr b)"
  by (cases r) simp_all

lemma init_set_values:
  "init_set ''i'' 1 = [''i1'']" "init_set ''j'' 1 = [''j1'']" "init_set ''c'' 1 = [''c1'']"
  "init_set ''s'' 1 = [''s1'']" "init_set ''s'' 2 = [''s1'', ''s2'']" "init_set ''s'' 0 = []"
  "init_set ''j'' (- 1) = []"
  by code_simp+

lemma get_int_values:
  "get_int ''i1'' = Inr 1" "get_int ''c1'' = Inr 1"
  by code_simp+

lemma B_filter_values:
  "B_filter ''i1'' ''s1'' = Inr True" "B_filter ''i1'' ''s2'' = Inr True"
  "B_filter ''i1'' ''j1'' = Inr False"
  "B_filter ''s1'' ''s1'' = Inr False" "B_filter ''s1'' ''s2'' = Inr True"
  "B_filter ''s2'' ''s1'' = Inr True" "B_filter ''s2'' ''s2'' = Inr False"
  "B_filter ''s1'' ''j1'' = Inr True" "B_filter ''s2'' ''j1'' = Inr True"
  by code_simp+

lemma generate_1_1_1: "generate 1 1 1 = Inr md111"
  unfolding generate_def md111_def
  by (simp add: derive_def truediv_def Let_def init_set_values union_list_def inter_list_def
      B_filter_values f_init_def get_int_values PercentFraction_def default_param_def
      scalar_param_def PositiveReals_def flat_product_def)
     (simp add: fun_eq_iff)

lemma generate_bounds:
  assumes "generate inbounds outbounds splitters = Inr md"
  shows "u_t md = 1" and "u_x md = 2"
  using assms unfolding generate_def Let_def
  by (auto simp: then_do_Inr scalar_param_def split: if_splits)

subsection \<open>What the generator builds\<close>

lemma letters_not_digits:
  "CHR ''i'' \<notin> set digits" "CHR ''j'' \<notin> set digits"
  "CHR ''s'' \<notin> set digits" "CHR ''c'' \<notin> set digits"
  by code_simp+

lemma letters_in_letters:
  "CHR ''i'' \<in> set ascii_letters" "CHR ''j'' \<in> set ascii_letters"
  "CHR ''s'' \<in> set ascii_letters" "CHR ''c'' \<in> set ascii_letters"
  by code_simp+

lemma B_filter_names:
  assumes "lp = ''i'' \<or> lp = ''s''" "lq = ''s'' \<or> lq = ''j''"
  shows "B_filter (lp @ str a) (lq @ str b)
       = Inr (\<not> (lp = ''i'' \<and> lq = ''j'') \<and> \<not> (lp = ''s'' \<and> lq = ''s'' \<and> a = b))"
proof -
  have gl: "get_letter (lp @ str a) = lp" "get_letter (lq @ str b) = lq"
    using assms by (auto intro!: get_letter_member simp: letters_not_digits)
  have gi: "get_int (lp @ str a) = Inr (int a)" "get_int (lq @ str b) = Inr (int b)"
    using assms by (auto intro!: get_int_member simp: letters_in_letters)
  show ?thesis
    unfolding B_filter_def gl gi using assms by auto
qed

lemma filter_set_total:
  "\<forall>a \<in> set as. keep a = Inr (pr a) \<Longrightarrow> filter_set keep as = Inr (filter pr as)"
  by (induction as) simp_all

lemma filter_set_Inr:
  "filter_set keep as = Inr bs \<Longrightarrow> bs = filter (\<lambda>a. keep a = Inr True) as"
proof (induction as arbitrary: bs)
  case Nil
  then show ?case by simp
next
  case (Cons a as)
  then show ?case
    by (auto simp: then_do_Inr split: if_splits)
qed

lemma derive_Inr:
  "derive inbounds outbounds = Inr d \<longleftrightarrow>
     inbounds \<noteq> 0 \<and> outbounds \<noteq> 0 \<and>
     d = \<lparr>cargos = inbounds, throughput = min inbounds outbounds,
          v_in = of_int (min inbounds outbounds) / of_int inbounds,
          v_out = of_int (min inbounds outbounds) / of_int outbounds,
          t_in = of_int (min inbounds outbounds) / of_int inbounds / 1,
          t_out = of_int (min inbounds outbounds) / of_int outbounds / of_int inbounds\<rparr>"
  unfolding derive_def Let_def truediv_def by auto

lemma derive_Inl:
  "derive inbounds outbounds = Inl err \<longleftrightarrow>
     (inbounds = 0 \<or> outbounds = 0) \<and> err = ZeroDivisionError"
  unfolding derive_def Let_def truediv_def by auto

lemma name_in_init_set:
  "[ch] @ str a \<in> set (init_set [ch'] sz) \<longleftrightarrow> ch = ch' \<and> 1 \<le> a \<and> int a \<le> sz"
  unfolding set_init_set by (auto simp: str_inject)

lemma init_set_member_cases:
  assumes "p \<in> set (init_set [ch] sz)"
  obtains a where "p = [ch] @ str a" "1 \<le> a" "int a \<le> sz"
  using assms unfolding set_init_set by blast

lemma route_filter:
  assumes "p \<in> set (init_set ''i'' ni) \<union> set (init_set ''s'' ns)"
    and "q \<in> set (init_set ''s'' ns) \<union> set (init_set ''j'' nj)"
  shows "B_filter p q = Inr (\<not> (p \<in> set (init_set ''i'' ni) \<and> q \<in> set (init_set ''j'' nj)) \<and>
                             \<not> (p = q \<and> p \<in> set (init_set ''s'' ns)))"
proof -
  from assms(1) obtain lp a where p: "p = [lp] @ str a" "1 \<le> a"
    and lp: "(lp = CHR ''i'' \<and> int a \<le> ni) \<or> (lp = CHR ''s'' \<and> int a \<le> ns)"
  proof (elim UnE)
    assume "p \<in> set (init_set ''i'' ni)"
    then obtain a where "p = ''i'' @ str a" "1 \<le> a" "int a \<le> ni"
      by (rule init_set_member_cases)
    then show thesis using that [of "CHR ''i''" a] by blast
  next
    assume "p \<in> set (init_set ''s'' ns)"
    then obtain a where "p = ''s'' @ str a" "1 \<le> a" "int a \<le> ns"
      by (rule init_set_member_cases)
    then show thesis using that [of "CHR ''s''" a] by blast
  qed
  from assms(2) obtain lq b where q: "q = [lq] @ str b" "1 \<le> b"
    and lq: "(lq = CHR ''s'' \<and> int b \<le> ns) \<or> (lq = CHR ''j'' \<and> int b \<le> nj)"
  proof (elim UnE)
    assume "q \<in> set (init_set ''s'' ns)"
    then obtain b where "q = ''s'' @ str b" "1 \<le> b" "int b \<le> ns"
      by (rule init_set_member_cases)
    then show thesis using that [of "CHR ''s''" b] by blast
  next
    assume "q \<in> set (init_set ''j'' nj)"
    then obtain b where "q = ''j'' @ str b" "1 \<le> b" "int b \<le> nj"
      by (rule init_set_member_cases)
    then show thesis using that [of "CHR ''j''" b] by blast
  qed
  have "B_filter ([lp] @ str a) ([lq] @ str b)
       = Inr (\<not> ([lp] = ''i'' \<and> [lq] = ''j'') \<and> \<not> ([lp] = ''s'' \<and> [lq] = ''s'' \<and> a = b))"
    using lp lq by (intro B_filter_names) auto
  moreover have "[lp] @ str a \<in> set (init_set ''i'' ni) \<longleftrightarrow> lp = CHR ''i''"
    using p(2) lp unfolding name_in_init_set by auto
  moreover have "[lq] @ str b \<in> set (init_set ''j'' nj) \<longleftrightarrow> lq = CHR ''j''"
    using q(2) lq unfolding name_in_init_set by auto
  moreover have "[lp] @ str a \<in> set (init_set ''s'' ns) \<longleftrightarrow> lp = CHR ''s''"
    using p(2) lp unfolding name_in_init_set by auto
  moreover have "[lp] @ str a = [lq] @ str b \<longleftrightarrow> lp = lq \<and> a = b"
    by (simp add: str_inject)
  ultimately show ?thesis
    unfolding p(1) q(1) by auto
qed

lemma generate_sets:
  assumes "generate inbounds outbounds splitters = Inr md"
  shows "I md = init_set ''i'' inbounds" "J md = init_set ''j'' outbounds"
    "S md = init_set ''s'' splitters" "C md = init_set ''c'' inbounds"
    "P md = union_list (I md) (S md)" "Q md = union_list (S md) (J md)"
    "filter_set (\<lambda>(p, q). B_filter p q) (List.product (P md) (Q md)) = Inr (B md)"
    "IxC md = List.product (I md) (C md)" "JxC md = List.product (J md) (C md)"
    "SxC md = List.product (S md) (C md)" "BxC md = flat_product (B md) (C md)"
    "W md = inter_list (List.product (S md) (Q md)) (B md)" "WxC md = flat_product (W md) (C md)"
  using assms unfolding generate_def Let_def
  by (auto simp: then_do_Inr derive_Inr)

lemma generate_B:
  assumes "generate inbounds outbounds splitters = Inr md"
  shows "B md = filter (route_allowed md) (List.product (P md) (Q md))"
proof -
  note g = generate_sets [OF assms]
  have "\<forall>r \<in> set (List.product (P md) (Q md)). (\<lambda>(p, q). B_filter p q) r = Inr (route_allowed md r)"
  proof
    fix r assume r: "r \<in> set (List.product (P md) (Q md))"
    obtain p q where pq: "r = (p, q)" by (cases r)
    have "p \<in> set (init_set ''i'' inbounds) \<union> set (init_set ''s'' splitters)"
      using r pq g(1,3,5) by (auto simp: union_list_def)
    moreover have "q \<in> set (init_set ''s'' splitters) \<union> set (init_set ''j'' outbounds)"
      using r pq g(2,3,6) by (auto simp: union_list_def)
    ultimately show "(\<lambda>(p, q). B_filter p q) r = Inr (route_allowed md r)"
      unfolding pq route_allowed_def g(1,2,3) by (simp add: route_filter)
  qed
  then have "filter_set (\<lambda>(p, q). B_filter p q) (List.product (P md) (Q md))
      = Inr (filter (route_allowed md) (List.product (P md) (Q md)))"
    by (rule filter_set_total)
  then show ?thesis using g(7) by simp
qed

lemma init_param_total:
  "\<forall>k \<in> set ks. rule k = Inr (val k) \<and> domain (val k) \<Longrightarrow>
   init_param rule domain ks = Inr (map (\<lambda>k. (k, val k)) ks)"
  by (induction ks) simp_all

lemma init_param_Inr:
  assumes "init_param rule domain ks = Inr kvs" "k \<in> set ks"
  shows "\<exists>val. rule k = Inr val \<and> domain val \<and> map_of kvs k = Some val"
  using assms
proof (induction ks arbitrary: kvs)
  case Nil
  then show ?case by simp
next
  case (Cons a ks)
  from Cons.prems(1) obtain val rest where h: "rule a = Inr val" "domain val"
    "init_param rule domain ks = Inr rest" "kvs = (a, val) # rest"
    by (auto simp: then_do_Inr split: if_splits)
  show ?case
  proof (cases "k = a")
    case True
    then show ?thesis using h by simp
  next
    case False
    then have "k \<in> set ks" using Cons.prems(2) by simp
    from Cons.IH [OF h(3) this] show ?thesis using False h(4) by simp
  qed
qed

lemma f_init_names:
  "f_init d (''i'' @ str a) (''c'' @ str b) = Inr (if a = b then t_in d else 0)"
  unfolding f_init_def
  by (simp only: get_int_member [OF letters_ok(1)] get_int_member [OF letters_ok(4)]
      then_do_simps) simp

lemma generate_f:
  assumes "generate inbounds outbounds splitters = Inr md"
    and "1 \<le> a" "int a \<le> inbounds" "1 \<le> b" "int b \<le> inbounds"
  shows "f md (''i'' @ str a, ''c'' @ str b)
       = Some (if a = b then of_int (min inbounds outbounds) / of_int inbounds else 0)"
    and "PercentFraction (if a = b then of_int (min inbounds outbounds) / of_int inbounds else 0)"
proof -
  from assms(1) obtain d kvs where d: "derive inbounds outbounds = Inr d"
    and kvs: "init_param (\<lambda>(i, c). f_init d i c) PercentFraction
               (List.product (init_set ''i'' inbounds) (init_set ''c'' (cargos d))) = Inr kvs"
    and fm: "f md = map_of kvs"
    unfolding generate_def Let_def by (auto simp: then_do_Inr)
  have c: "cargos d = inbounds" and ti: "t_in d = of_int (min inbounds outbounds) / of_int inbounds"
    using d unfolding derive_Inr by simp_all
  have "(''i'' @ str a, ''c'' @ str b)
      \<in> set (List.product (init_set ''i'' inbounds) (init_set ''c'' (cargos d)))"
    using assms(2-) unfolding c set_product set_init_set by blast
  from init_param_Inr [OF kvs this] obtain val
    where val: "(\<lambda>(i, c). f_init d i c) (''i'' @ str a, ''c'' @ str b) = Inr val"
      "PercentFraction val" "map_of kvs (''i'' @ str a, ''c'' @ str b) = Some val"
    by blast
  have "val = (if a = b then t_in d else 0)"
    using val(1) f_init_names [of d a b] by simp
  then have eq: "val = (if a = b then of_int (min inbounds outbounds) / of_int inbounds else 0)"
    unfolding ti .
  show "f md (''i'' @ str a, ''c'' @ str b)
       = Some (if a = b then of_int (min inbounds outbounds) / of_int inbounds else 0)"
    unfolding fm val(3) eq ..
  show "PercentFraction (if a = b then of_int (min inbounds outbounds) / of_int inbounds else 0)"
    using val(2) unfolding eq .
qed

lemma generate_g:
  assumes "generate inbounds outbounds splitters = Inr md"
  shows "g md = (\<lambda>k. if k \<in> set (JxC md)
                     then Some (of_int (min inbounds outbounds) / of_int outbounds / of_int inbounds)
                     else None)"
    and "PercentFraction (of_int (min inbounds outbounds) / of_int outbounds / of_int inbounds)"
  using assms unfolding generate_def Let_def
  by (auto simp: then_do_Inr derive_Inr default_param_def split: if_splits)

lemma fraction_in: 
  assumes "0 < inbounds" "0 < outbounds"
  shows "PercentFraction (of_int (min inbounds outbounds) / of_int inbounds)"
proof -
  have "(0::real) \<le> of_int (min inbounds outbounds)" using assms by simp
  moreover have "(of_int (min inbounds outbounds) :: real) \<le> of_int inbounds" by simp
  ultimately show ?thesis using assms unfolding PercentFraction_def by simp
qed

lemma fraction_out: 
  assumes "0 < inbounds" "0 < outbounds"
  shows "PercentFraction (of_int (min inbounds outbounds) / of_int outbounds / of_int inbounds)"
proof -
  have a: "(0::real) \<le> of_int (min inbounds outbounds)" using assms by simp
  have b: "(of_int (min inbounds outbounds) :: real) \<le> of_int outbounds" by simp
  have c: "(1::real) \<le> of_int inbounds" using assms by simp
  have "(of_int (min inbounds outbounds) :: real) / of_int outbounds \<le> 1"
    using b assms by simp
  moreover have "0 \<le> (of_int (min inbounds outbounds) :: real) / of_int outbounds"
    using a assms by simp
  ultimately have "(of_int (min inbounds outbounds) :: real) / of_int outbounds / of_int inbounds \<le> 1"
    "0 \<le> (of_int (min inbounds outbounds) :: real) / of_int outbounds / of_int inbounds"
    using c assms
     apply (metis divide_le_eq_1 dual_order.trans of_int_0_less_iff)
    using a assms by simp
  then show ?thesis unfolding PercentFraction_def by simp
qed

lemma init_param_ex:
  "\<forall>k \<in> set ks. \<exists>val. rule k = Inr val \<and> domain val \<Longrightarrow>
   \<exists>kvs. init_param rule domain ks = Inr kvs"
proof (induction ks)
  case Nil
  then show ?case by simp
next
  case (Cons a ks)
  then obtain val kvs where "rule a = Inr val" "domain val" "init_param rule domain ks = Inr kvs"
    by auto
  then show ?case by simp
qed

lemma generate_positive:
  assumes "0 < inbounds" "0 < outbounds"
  shows "\<exists>md. generate inbounds outbounds splitters = Inr md"
proof -
  obtain d where d: "derive inbounds outbounds = Inr d" and c: "cargos d = inbounds"
    and ti: "t_in d = of_int (min inbounds outbounds) / of_int inbounds"
    and to: "t_out d = of_int (min inbounds outbounds) / of_int outbounds / of_int inbounds"
    using assms unfolding derive_Inr by simp
  have "\<forall>r \<in> set (List.product (union_list (init_set ''i'' inbounds) (init_set ''s'' splitters))
                 (union_list (init_set ''s'' splitters) (init_set ''j'' outbounds))).
          (\<lambda>(p, q). B_filter p q) r
        = Inr ((\<lambda>(p, q). \<not> (p \<in> set (init_set ''i'' inbounds) \<and> q \<in> set (init_set ''j'' outbounds)) \<and>
                        \<not> (p = q \<and> p \<in> set (init_set ''s'' splitters))) r)"
  proof
    fix r
    assume r: "r \<in> set (List.product (union_list (init_set ''i'' inbounds) (init_set ''s'' splitters))
                 (union_list (init_set ''s'' splitters) (init_set ''j'' outbounds)))"
    obtain p q where pq: "r = (p, q)" by (cases r)
    have "p \<in> set (init_set ''i'' inbounds) \<union> set (init_set ''s'' splitters)"
      and "q \<in> set (init_set ''s'' splitters) \<union> set (init_set ''j'' outbounds)"
      using r unfolding pq by (auto simp: union_list_def)
    from route_filter [OF this] show "(\<lambda>(p, q). B_filter p q) r
        = Inr ((\<lambda>(p, q). \<not> (p \<in> set (init_set ''i'' inbounds) \<and> q \<in> set (init_set ''j'' outbounds)) \<and>
                        \<not> (p = q \<and> p \<in> set (init_set ''s'' splitters))) r)"
      unfolding pq by simp
  qed
  from filter_set_total [OF this] obtain B0 where B0:
    "filter_set (\<lambda>(p, q). B_filter p q)
       (List.product (union_list (init_set ''i'' inbounds) (init_set ''s'' splitters))
          (union_list (init_set ''s'' splitters) (init_set ''j'' outbounds))) = Inr B0"
    by blast
  have "\<forall>k \<in> set (List.product (init_set ''i'' inbounds) (init_set ''c'' inbounds)).
          \<exists>val. (\<lambda>(i, c). f_init d i c) k = Inr val \<and> PercentFraction val"
  proof
    fix k assume "k \<in> set (List.product (init_set ''i'' inbounds) (init_set ''c'' inbounds))"
    then obtain a b where k: "k = (''i'' @ str a, ''c'' @ str b)"
      unfolding set_product set_init_set by blast
    have "PercentFraction (if a = b then t_in d else 0)"
      using fraction_in [OF assms] unfolding ti by (simp add: PercentFraction_def)
    then show "\<exists>val. (\<lambda>(i, c). f_init d i c) k = Inr val \<and> PercentFraction val"
      unfolding k using f_init_names [of d a b] by simp
  qed
  from init_param_ex [OF this] obtain kvs where kvs:
    "init_param (\<lambda>(i, c). f_init d i c) PercentFraction
       (List.product (init_set ''i'' inbounds) (init_set ''c'' inbounds)) = Inr kvs"
    by blast
  have g: "PercentFraction (t_out d)"
    using fraction_out [OF assms] unfolding to .
  show ?thesis
    unfolding generate_def Let_def d then_do_simps c B0 kvs
    by (simp add: default_param_def scalar_param_def PositiveReals_def g)
qed

subsection \<open>The even-split linearization\<close>

lemma linearization_exact:
  fixes ev zv tv xv :: real
  assumes "ev = 0 \<or> ev = 1" "zv = 0 \<or> zv = 1" "0 \<le> tv" "tv \<le> 1" "0 \<le> xv" "xv \<le> 2"
  shows "(\<exists>xe0 tz0. 0 \<le> xe0 \<and> 0 \<le> tz0 \<and> xe0 \<le> 2 * ev \<and> xe0 \<le> xv \<and>
            xv - 2 * (1 - ev) \<le> xe0 \<and> tz0 \<le> 1 * zv \<and> tz0 \<le> tv \<and>
            tv - 1 * (1 - zv) \<le> tz0 \<and> xe0 = tv + tz0)
         \<longleftrightarrow> tv = ev * xv / (1 + zv)"
    (is "?sat \<longleftrightarrow> ?eq")
proof
  assume ?sat
  then obtain xe0 tz0 where h: "0 \<le> xe0" "0 \<le> tz0" "xe0 \<le> 2 * ev" "xe0 \<le> xv"
      "xv - 2 * (1 - ev) \<le> xe0" "tz0 \<le> 1 * zv" "tz0 \<le> tv" "tv - 1 * (1 - zv) \<le> tz0"
      "xe0 = tv + tz0"
    by blast
  from assms(1,2) h assms(3-) show ?eq
    by (elim disjE) simp_all
next
  assume r: ?eq
  show ?sat
    apply (rule exI [of _ "ev * xv"], rule exI [of _ "zv * tv"])
    using assms r by (elim disjE) simp_all
qed

lemma linearization_satisfiable_iff:
  "linearization_satisfiable md a s q c \<longleftrightarrow>
     (\<exists>xe0 tz0. 0 \<le> xe0 \<and> 0 \<le> tz0 \<and> xe0 \<le> u_x md * e a (s, q) \<and> xe0 \<le> x a (s, c) \<and>
        x a (s, c) - u_x md * (1 - e a (s, q)) \<le> xe0 \<and> tz0 \<le> u_t md * z a s \<and>
        tz0 \<le> t a (s, q, c) \<and> t a (s, q, c) - u_t md * (1 - z a s) \<le> tz0 \<and>
        xe0 = t a (s, q, c) + tz0)"
  by (simp add: linearization_satisfiable_def linearization_def NonNegativeReals_def
      force_xe_1_rule_def force_xe_2_rule_def force_xe_3_rule_def force_tz_1_rule_def
      force_tz_2_rule_def force_tz_3_rule_def split_evenly_rule_def)

text \<open>
  Claim C1. For a splitter-output route \<open>(s, q)\<close> of a generated model and a cargo \<open>c\<close>,
  with \<open>e[s,q]\<close> and \<open>z[s]\<close> binary, \<open>t[s,q,c]\<close> between 0 and \<open>U_t = 1\<close> and \<open>x[s,c]\<close>
  between 0 and \<open>U_x = 2\<close>, the seven linear constraints have nonnegative solutions
  \<open>xe[s,q,c]\<close>, \<open>tz[s,q,c]\<close> exactly when \<open>t[s,q,c] = e[s,q] * x[s,c] / (1 + z[s])\<close>. In
  particular they force \<open>t = 0\<close> when \<open>e = 0\<close>, \<open>t = x\<close> when \<open>e = 1\<close> and \<open>z = 0\<close>, and
  \<open>t = x / 2\<close> when \<open>e = 1\<close> and \<open>z = 1\<close>.
\<close>

theorem even_split_linearization_exact:
  assumes "generate inbounds outbounds splitters = Inr md"
    and "(s, q) \<in> set (W md)" and "c \<in> set (C md)"
    and "Binary (e a (s, q))" and "Binary (z a s)"
    and "0 \<le> t a (s, q, c)" and "t a (s, q, c) \<le> u_t md"
    and "0 \<le> x a (s, c)" and "x a (s, c) \<le> u_x md"
  shows "(linearization_satisfiable md a s q c \<longleftrightarrow>
            t a (s, q, c) = e a (s, q) * x a (s, c) / (1 + z a s)) \<and>
         (linearization_satisfiable md a s q c \<and> e a (s, q) = 0 \<longrightarrow> t a (s, q, c) = 0) \<and>
         (linearization_satisfiable md a s q c \<and> e a (s, q) = 1 \<and> z a s = 0 \<longrightarrow>
            t a (s, q, c) = x a (s, c)) \<and>
         (linearization_satisfiable md a s q c \<and> e a (s, q) = 1 \<and> z a s = 1 \<longrightarrow>
            t a (s, q, c) = x a (s, c) / 2)"
proof -
  have u: "u_t md = 1" "u_x md = 2"
    using generate_bounds [OF assms(1)] by simp_all
  have main: "linearization_satisfiable md a s q c \<longleftrightarrow>
      t a (s, q, c) = e a (s, q) * x a (s, c) / (1 + z a s)"
    unfolding linearization_satisfiable_iff u
    using assms(4-) unfolding u Binary_def
    by (intro linearization_exact) simp_all
  show ?thesis
    unfolding main by simp
qed

theorem even_split_linearization_exact_witness:
  "generate 1 1 1 = Inr md111 \<and> (''s1'', ''j1'') \<in> set (W md111) \<and> ''c1'' \<in> set (C md111) \<and>
   Binary (e a_half (''s1'', ''j1'')) \<and> Binary (z a_half ''s1'') \<and>
   0 \<le> t a_half (''s1'', ''j1'', ''c1'') \<and> t a_half (''s1'', ''j1'', ''c1'') \<le> u_t md111 \<and>
   0 \<le> x a_half (''s1'', ''c1'') \<and> x a_half (''s1'', ''c1'') \<le> u_x md111 \<and>
   linearization_satisfiable md111 a_half ''s1'' ''j1'' ''c1'' \<and>
   t a_half (''s1'', ''j1'', ''c1'') = x a_half (''s1'', ''c1'') / 2"
  using even_split_linearization_exact [OF generate_1_1_1, of "''s1''" "''j1''" "''c1''" a_half]
  by (simp add: generate_1_1_1 md111_def a_half_def Binary_def)

lemma length_init_set: "length (init_set letter sz) = nat sz"
  by (simp add: init_set_def py_range_def)

lemma nth_init_set: "a < nat sz \<Longrightarrow> init_set letter sz ! a = letter @ str (a + 1)"
  by (simp add: init_set_def py_range_def)

subsection \<open>Traffic parameters\<close>

text \<open>
  Claim C7. For positive inbound, outbound and splitter counts the generator returns a model
  whose traffic parameters are: \<open>throughput = min(|I|, |J|)\<close>; \<open>f[i, c] = throughput / |I|\<close> when
  the inbound belt \<open>i\<close> and the cargo \<open>c\<close> have the same ordinal index and \<open>0\<close> otherwise;
  \<open>g[j, c] = (throughput / |J|) / |C|\<close> for every outbound belt and cargo; and every \<open>f[i, c]\<close>
  and \<open>g[j, c]\<close> lies between 0 and 1.
\<close>

theorem traffic_parameters:
  assumes "0 < inbounds" "0 < outbounds" "0 < splitters"
  shows "\<exists>d md. derive inbounds outbounds = Inr d \<and>
           generate inbounds outbounds splitters = Inr md \<and>
           throughput d = min (int (length (I md))) (int (length (J md))) \<and>
           (\<forall>a < length (I md). \<forall>b < length (C md).
              f md (I md ! a, C md ! b)
                = Some (if a = b then of_int (throughput d) / of_int (int (length (I md))) else 0)) \<and>
           (\<forall>j \<in> set (J md). \<forall>c \<in> set (C md).
              g md (j, c) = Some (of_int (throughput d) / of_int (int (length (J md)))
                                   / of_int (int (length (C md))))) \<and>
           (\<forall>k \<in> set (IxC md). \<exists>r. f md k = Some r \<and> 0 \<le> r \<and> r \<le> 1) \<and>
           (\<forall>k \<in> set (JxC md). \<exists>r. g md k = Some r \<and> 0 \<le> r \<and> r \<le> 1)"
proof -
  obtain md where md: "generate inbounds outbounds splitters = Inr md"
    using generate_positive [OF assms(1,2)] by blast
  obtain d where d: "derive inbounds outbounds = Inr d" and th: "throughput d = min inbounds outbounds"
    using assms unfolding derive_Inr by simp
  note s = generate_sets [OF md]
  have len: "int (length (I md)) = inbounds" "int (length (J md)) = outbounds"
    "int (length (C md)) = inbounds"
    using assms unfolding s by (simp_all add: length_init_set)
  have f1: "\<forall>a < length (I md). \<forall>b < length (C md).
      f md (I md ! a, C md ! b)
        = Some (if a = b then of_int (throughput d) / of_int (int (length (I md))) else 0)"
  proof (intro allI impI)
    fix a b assume a: "a < length (I md)" and b: "b < length (C md)"
    then have ab: "a < nat inbounds" "b < nat inbounds"
      unfolding s by (simp_all add: length_init_set)
    then have "I md ! a = ''i'' @ str (a + 1)" "C md ! b = ''c'' @ str (b + 1)"
      unfolding s by (simp_all add: nth_init_set)
    moreover have "f md (''i'' @ str (a + 1), ''c'' @ str (b + 1))
        = Some (if a + 1 = b + 1 then of_int (min inbounds outbounds) / of_int inbounds else 0)"
      using ab by (intro generate_f [OF md]) auto
    ultimately show "f md (I md ! a, C md ! b)
        = Some (if a = b then of_int (throughput d) / of_int (int (length (I md))) else 0)"
      unfolding th len by simp
  qed
  have g0: "g md = (\<lambda>k. if k \<in> set (JxC md)
                     then Some (of_int (min inbounds outbounds) / of_int outbounds / of_int inbounds)
                     else None)"
    and gp: "PercentFraction (of_int (min inbounds outbounds) / of_int outbounds / of_int inbounds)"
    using generate_g [OF md] by blast+
  have g1: "\<forall>j \<in> set (J md). \<forall>c \<in> set (C md).
      g md (j, c) = Some (of_int (throughput d) / of_int (int (length (J md)))
                           / of_int (int (length (C md))))"
    unfolding th len g0 s(9) by simp
  have f2: "\<forall>k \<in> set (IxC md). \<exists>r. f md k = Some r \<and> 0 \<le> r \<and> r \<le> 1"
  proof
    fix k assume "k \<in> set (IxC md)"
    then obtain a b where k: "k = (''i'' @ str a, ''c'' @ str b)"
      and ab: "1 \<le> a" "int a \<le> inbounds" "1 \<le> b" "int b \<le> inbounds"
      unfolding s set_product set_init_set by blast
    from generate_f [OF md ab] show "\<exists>r. f md k = Some r \<and> 0 \<le> r \<and> r \<le> 1"
      unfolding k PercentFraction_def by blast
  qed
  have g2: "\<forall>k \<in> set (JxC md). \<exists>r. g md k = Some r \<and> 0 \<le> r \<and> r \<le> 1"
    using gp unfolding g0 PercentFraction_def by simp
  show ?thesis
    using d md th len f1 g1 f2 g2 by (intro exI [of _ d] exI [of _ md]) simp
qed

theorem traffic_parameters_witness:
  "(0::int) < 1 \<and>
   (\<exists>d md. derive 1 1 = Inr d \<and> generate 1 1 1 = Inr md \<and>
      throughput d = min (int (length (I md))) (int (length (J md))) \<and>
      (\<forall>a < length (I md). \<forall>b < length (C md).
         f md (I md ! a, C md ! b)
           = Some (if a = b then of_int (throughput d) / of_int (int (length (I md))) else 0)) \<and>
      (\<forall>j \<in> set (J md). \<forall>c \<in> set (C md).
         g md (j, c) = Some (of_int (throughput d) / of_int (int (length (J md)))
                              / of_int (int (length (C md))))) \<and>
      (\<forall>k \<in> set (IxC md). \<exists>r. f md k = Some r \<and> 0 \<le> r \<and> r \<le> 1) \<and>
      (\<forall>k \<in> set (JxC md). \<exists>r. g md k = Some r \<and> 0 \<le> r \<and> r \<le> 1))"
  using traffic_parameters [of 1 1 1] by simp

lemma generate_1_1_0: "generate 1 1 0 = Inr md110"
  unfolding generate_def md110_def
  by (simp add: derive_def truediv_def Let_def init_set_values union_list_def inter_list_def
      B_filter_values f_init_def get_int_values PercentFraction_def default_param_def
      scalar_param_def PositiveReals_def flat_product_def)
     (simp add: fun_eq_iff)

lemma then_do_Inl:
  "then_do r k = Inl err \<longleftrightarrow> r = Inl err \<or> (\<exists>a. r = Inr a \<and> k a = Inl err)"
  by (cases r) simp_all

lemma filter_set_Inl:
  "filter_set keep as = Inl err \<Longrightarrow> \<exists>a \<in> set as. keep a = Inl err"
  by (induction as) (auto simp: then_do_Inl)

lemma int_of_string_Inl: "int_of_string text = Inl err \<Longrightarrow> err = ValueError"
  unfolding int_of_string_def by (simp split: if_splits)

lemma B_filter_Inl: "B_filter p q = Inl err \<Longrightarrow> err = ValueError"
  unfolding B_filter_def get_int_def
  by (auto simp: then_do_Inl split: if_splits dest: int_of_string_Inl)

lemma f_init_Inl: "f_init d i c = Inl err \<Longrightarrow> err = ValueError"
  unfolding f_init_def get_int_def
  by (auto simp: then_do_Inl split: if_splits dest: int_of_string_Inl)

lemma init_param_Inl:
  "init_param rule domain ks = Inl err \<Longrightarrow> err = ValueError \<or> (\<exists>k \<in> set ks. rule k = Inl err)"
  by (induction ks) (auto simp: then_do_Inl split: if_splits)

lemma generate_Inl:
  assumes "generate inbounds outbounds splitters = Inl err"
  shows "err = ZeroDivisionError \<or> err = ValueError"
  using assms unfolding generate_def Let_def
  by (auto simp: then_do_Inl derive_Inl default_param_def scalar_param_def
      split: if_splits dest!: filter_set_Inl init_param_Inl dest: B_filter_Inl f_init_Inl)

lemma generate_zero:
  assumes "inbounds = 0 \<or> outbounds = 0"
  shows "generate inbounds outbounds splitters = Inl ZeroDivisionError"
proof -
  have "derive inbounds outbounds = Inl ZeroDivisionError"
    using assms unfolding derive_Inl by simp
  then show ?thesis unfolding generate_def by simp
qed

lemma derive'_values:
  assumes "inbounds \<noteq> 0" "outbounds \<noteq> 0"
  shows "cargos' (derive' inbounds outbounds) = inbounds"
    "t_in' (derive' inbounds outbounds) = Finite (of_int (min inbounds outbounds) / of_int inbounds)"
    "t_out' (derive' inbounds outbounds)
       = Finite (of_int (min inbounds outbounds) / of_int outbounds / of_int inbounds)"
  using assms unfolding derive'_def Let_def by simp_all

lemma cargos'_derive': "cargos' (derive' inbounds outbounds) = inbounds"
  unfolding derive'_def Let_def by simp

lemma f_init'_names:
  "f_init' d (''i'' @ str a) (''c'' @ str b) = Inr (if a = b then t_in' d else Finite 0)"
  unfolding f_init'_def
  by (simp only: lstrip_member [OF letters_ok(1)] lstrip_member [OF letters_ok(4)]
      int_of_string_str then_do_simps) simp

lemma name_set_member:
  "p \<in> name_set letter sz \<longleftrightarrow> (\<exists>k. p = letter @ str k \<and> 1 \<le> k \<and> int k \<le> sz)"
  unfolding name_set_eq set_init_set by blast

lemma rat_fraction_in:
  assumes "0 < inbounds" "0 < outbounds"
  shows "0 \<le> (of_int (min inbounds outbounds) :: rat) / of_int inbounds"
    and "(of_int (min inbounds outbounds) :: rat) / of_int inbounds \<le> 1"
proof -
  have "(0::rat) \<le> of_int (min inbounds outbounds)" using assms by simp
  then show "0 \<le> (of_int (min inbounds outbounds) :: rat) / of_int inbounds"
    using assms by simp
  have "(of_int (min inbounds outbounds) :: rat) \<le> of_int inbounds" by simp
  then show "(of_int (min inbounds outbounds) :: rat) / of_int inbounds \<le> 1"
    using assms by simp
qed

lemma rat_fraction_out:
  assumes "0 < inbounds" "0 < outbounds"
  shows "0 \<le> (of_int (min inbounds outbounds) :: rat) / of_int outbounds / of_int inbounds"
    and "(of_int (min inbounds outbounds) :: rat) / of_int outbounds / of_int inbounds \<le> 1"
proof -
  have a: "(0::rat) \<le> of_int (min inbounds outbounds)" using assms by simp
  have b: "(of_int (min inbounds outbounds) :: rat) \<le> of_int outbounds" by simp
  have c: "(1::rat) \<le> of_int inbounds" using assms by simp
  have q1: "(of_int (min inbounds outbounds) :: rat) / of_int outbounds \<le> 1"
    using b assms by simp
  have q0: "0 \<le> (of_int (min inbounds outbounds) :: rat) / of_int outbounds"
    using a assms by simp
  show "0 \<le> (of_int (min inbounds outbounds) :: rat) / of_int outbounds / of_int inbounds"
    using q0 assms by simp
  have "(of_int (min inbounds outbounds) :: rat) / of_int outbounds \<le> of_int inbounds"
    using q1 c by (rule order_trans)
  then show "(of_int (min inbounds outbounds) :: rat) / of_int outbounds / of_int inbounds \<le> 1"
    using assms by (simp add: divide_le_eq mult.commute)
qed

lemma generate'_sets:
  assumes "generate' inbounds outbounds splitters = Inr sys"
  shows "I' sys = name_set ''i'' inbounds" "J' sys = name_set ''j'' outbounds"
    "S' sys = name_set ''s'' splitters" "C' sys = name_set ''c'' inbounds"
    "P' sys = I' sys \<union> S' sys" "Q' sys = J' sys \<union> S' sys"
    "B' sys = P' sys \<times> Q' sys"
    "IxC' sys = I' sys \<times> C' sys" "JxC' sys = J' sys \<times> C' sys"
    "u_t' sys = Finite 1" "u_x' sys = Finite 2"
  using assms unfolding generate'_def Let_def
  by (auto simp: then_do_Inr cargos'_derive')

lemma generate'_positive:
  assumes "0 < inbounds" "0 < outbounds"
  shows "\<exists>sys. generate' inbounds outbounds splitters = Inr sys \<and>
           (\<forall>k \<in> IxC' sys. \<exists>r. f' sys k = Some (Finite r) \<and> 0 \<le> r \<and> r \<le> 1) \<and>
           (\<forall>k \<in> JxC' sys. \<exists>r. g' sys k = Some (Finite r) \<and> 0 \<le> r \<and> r \<le> 1)"
proof -
  define d where "d = derive' inbounds outbounds"
  define IxC0 where "IxC0 = name_set ''i'' inbounds \<times> name_set ''c'' inbounds"
  define JxC0 where "JxC0 = name_set ''j'' outbounds \<times> name_set ''c'' inbounds"
  define f0 where "f0 = (\<lambda>(i, c). if (i, c) \<in> IxC0
                         then (case f_init' d i c of Inr val \<Rightarrow> Some val | Inl err \<Rightarrow> None)
                         else None)"
  define g0 where "g0 = (\<lambda>k. if k \<in> JxC0 then Some (t_out' d) else None)"
  have c: "cargos' d = inbounds"
    and ti: "t_in' d = Finite (of_int (min inbounds outbounds) / of_int inbounds)"
    and to: "t_out' d = Finite (of_int (min inbounds outbounds) / of_int outbounds / of_int inbounds)"
    using assms derive'_values [of inbounds outbounds] unfolding d_def by simp_all
  have fv: "\<exists>r. f_init' d i c = Inr (Finite r) \<and> 0 \<le> r \<and> r \<le> 1" if "(i, c) \<in> IxC0" for i c
  proof -
    from that obtain a b where ab: "i = ''i'' @ str a" "c = ''c'' @ str b"
      unfolding IxC0_def by (auto simp: name_set_member)
    show ?thesis
      unfolding ab f_init'_names ti using rat_fraction_in [OF assms] by simp
  qed
  have fd: "f_dict d IxC0 = Inr f0"
    unfolding f_dict_def f0_def using fv by fastforce
  have f0v: "\<exists>r. f0 k = Some (Finite r) \<and> 0 \<le> r \<and> r \<le> 1" if "k \<in> IxC0" for k
  proof -
    obtain i c where k: "k = (i, c)" by (cases k)
    from fv [of i c] that obtain r where "f_init' d i c = Inr (Finite r)" "0 \<le> r" "r \<le> 1"
      unfolding k by blast
    then show ?thesis using that unfolding k f0_def by simp
  qed
  have g0v: "\<exists>r. g0 k = Some (Finite r) \<and> 0 \<le> r \<and> r \<le> 1" if "k \<in> JxC0" for k
    using that rat_fraction_out [OF assms] unfolding g0_def to by simp
  have af: "assert_fractions f0 IxC0 = Inr ()"
    unfolding assert_fractions_def using f0v by (fastforce simp: assert_fraction_def)
  have ag: "assert_fractions g0 JxC0 = Inr ()"
    unfolding assert_fractions_def using g0v by (fastforce simp: assert_fraction_def)
  have ap: "assert_positive (Finite 1) = Inr ()" "assert_positive (Finite 2) = Inr ()"
    by (simp_all add: assert_positive_def)
  have "generate' inbounds outbounds splitters =
      Inr \<lparr>I' = name_set ''i'' inbounds, J' = name_set ''j'' outbounds,
           S' = name_set ''s'' splitters, C' = name_set ''c'' inbounds,
           P' = name_set ''i'' inbounds \<union> name_set ''s'' splitters,
           Q' = name_set ''j'' outbounds \<union> name_set ''s'' splitters,
           B' = (name_set ''i'' inbounds \<union> name_set ''s'' splitters)
                  \<times> (name_set ''j'' outbounds \<union> name_set ''s'' splitters),
           IxC' = IxC0, JxC' = JxC0,
           SxC' = name_set ''s'' splitters \<times> name_set ''c'' inbounds,
           BxC' = (\<lambda>((p, q), c). (p, q, c)) `
                    (((name_set ''i'' inbounds \<union> name_set ''s'' splitters)
                       \<times> (name_set ''j'' outbounds \<union> name_set ''s'' splitters))
                     \<times> name_set ''c'' inbounds),
           SxQxC' = (name_set ''s'' splitters
                       \<times> (name_set ''j'' outbounds \<union> name_set ''s'' splitters)
                       \<times> name_set ''c'' inbounds) \<inter>
                    (\<lambda>((p, q), c). (p, q, c)) `
                    (((name_set ''i'' inbounds \<union> name_set ''s'' splitters)
                       \<times> (name_set ''j'' outbounds \<union> name_set ''s'' splitters))
                     \<times> name_set ''c'' inbounds),
           f' = f0, g' = g0, u_t' = Finite 1, u_x' = Finite 2\<rparr>"
    unfolding generate'_def Let_def d_def [symmetric] c IxC0_def [symmetric] JxC0_def [symmetric]
      fd then_do_simps af g0_def [symmetric] ag ap ..
  then show ?thesis using f0v g0v by simp
qed

lemma generate'_Inl:
  assumes "generate' inbounds outbounds splitters = Inl err"
  shows "err = ValueError \<or> err = AssertionError \<or> err = TypeError"
  using assms unfolding generate'_def Let_def
  by (auto simp: then_do_Inl f_dict_def assert_fractions_def assert_positive_def
      split: if_splits)

text \<open>
  Claim C10. In the symbolic formulation, for positive inbound, outbound and splitter counts
  every generated \<open>f[i, c]\<close> and \<open>g[j, c]\<close> lies between 0 and 1 and the bounds \<open>u_t\<close> and \<open>u_x\<close>
  are positive, so the construction passes every \<^verbatim>\<open>assert\<close> and returns the system.
\<close>

theorem symbolic_parameter_asserts:
  assumes "0 < inbounds" "0 < outbounds" "0 < splitters"
  shows "\<exists>sys. generate' inbounds outbounds splitters = Inr sys \<and>
           (\<forall>k \<in> IxC' sys. \<exists>r. f' sys k = Some (Finite r) \<and> 0 \<le> r \<and> r \<le> 1) \<and>
           (\<forall>k \<in> JxC' sys. \<exists>r. g' sys k = Some (Finite r) \<and> 0 \<le> r \<and> r \<le> 1) \<and>
           (\<exists>r. u_t' sys = Finite r \<and> 0 < r) \<and> (\<exists>r. u_x' sys = Finite r \<and> 0 < r)"
proof -
  from generate'_positive [OF assms(1,2)] obtain sys
    where sys: "generate' inbounds outbounds splitters = Inr sys"
      and fg: "\<forall>k \<in> IxC' sys. \<exists>r. f' sys k = Some (Finite r) \<and> 0 \<le> r \<and> r \<le> 1"
        "\<forall>k \<in> JxC' sys. \<exists>r. g' sys k = Some (Finite r) \<and> 0 \<le> r \<and> r \<le> 1"
    by blast
  have "u_t' sys = Finite 1" "u_x' sys = Finite 2"
    using generate'_sets [OF sys] by simp_all
  then show ?thesis using sys fg by (intro exI [of _ sys]) simp
qed

theorem symbolic_parameter_asserts_witness:
  "(0::int) < 1 \<and>
   (\<exists>sys. generate' 1 1 1 = Inr sys \<and>
      (\<forall>k \<in> IxC' sys. \<exists>r. f' sys k = Some (Finite r) \<and> 0 \<le> r \<and> r \<le> 1) \<and>
      (\<forall>k \<in> JxC' sys. \<exists>r. g' sys k = Some (Finite r) \<and> 0 \<le> r \<and> r \<le> 1) \<and>
      (\<exists>r. u_t' sys = Finite r \<and> 0 < r) \<and> (\<exists>r. u_x' sys = Finite r \<and> 0 < r))"
  using symbolic_parameter_asserts [of 1 1 1] by simp

lemma name_set_values:
  "name_set ''i'' 1 = {''i1''}" "name_set ''j'' 1 = {''j1''}" "name_set ''s'' 1 = {''s1''}"
  unfolding name_set_eq by (simp_all add: init_set_values)

text \<open>
  Claim C2, as the code has it. For positive inbound, outbound and splitter counts both
  scripts return their index spaces. The route set \<open>B\<close> of the mixed-integer model holds a
  pair \<open>(p, q)\<close> of \<open>P \<times> Q\<close> exactly when it is neither a bypass from an inbound to an outbound
  belt nor a splitter paired with itself. The route set of the symbolic system, built over
  the same belts and splitters, is the whole product \<open>P \<times> Q\<close>: that script filters nothing.
\<close>

theorem route_set_rules:
  assumes "0 < inbounds" "0 < outbounds" "0 < splitters"
  shows "\<exists>md sys. generate inbounds outbounds splitters = Inr md \<and>
           generate' inbounds outbounds splitters = Inr sys \<and>
           (\<forall>p q. (p, q) \<in> set (B md) \<longleftrightarrow>
              p \<in> set (P md) \<and> q \<in> set (Q md) \<and>
              \<not> (p \<in> set (I md) \<and> q \<in> set (J md)) \<and> \<not> (p = q \<and> p \<in> set (S md))) \<and>
           I' sys = set (I md) \<and> J' sys = set (J md) \<and> S' sys = set (S md) \<and>
           P' sys = set (P md) \<and> Q' sys = set (Q md) \<and>
           B' sys = P' sys \<times> Q' sys"
proof -
  obtain md where md: "generate inbounds outbounds splitters = Inr md"
    using generate_positive [OF assms(1,2)] by blast
  obtain sys where sys: "generate' inbounds outbounds splitters = Inr sys"
    using generate'_positive [OF assms(1,2)] by blast
  note s = generate_sets [OF md]
  note s' = generate'_sets [OF sys]
  have B: "\<forall>p q. (p, q) \<in> set (B md) \<longleftrightarrow>
      p \<in> set (P md) \<and> q \<in> set (Q md) \<and>
      \<not> (p \<in> set (I md) \<and> q \<in> set (J md)) \<and> \<not> (p = q \<and> p \<in> set (S md))"
    unfolding generate_B [OF md] by (simp add: route_allowed_def)
  have sets: "I' sys = set (I md)" "J' sys = set (J md)" "S' sys = set (S md)"
    unfolding s' s(1-3) name_set_eq by simp_all
  have PQ: "P' sys = set (P md)" "Q' sys = set (Q md)"
    unfolding s'(5,6) sets s(5,6) union_list_def by auto
  show ?thesis
    using md sys B sets PQ s'(7) by (intro exI [of _ md] exI [of _ sys]) simp
qed

theorem route_set_rules_witness:
  "(0::int) < 1 \<and>
   (\<exists>md sys. generate 1 1 1 = Inr md \<and> generate' 1 1 1 = Inr sys \<and>
      (\<forall>p q. (p, q) \<in> set (B md) \<longleftrightarrow>
         p \<in> set (P md) \<and> q \<in> set (Q md) \<and>
         \<not> (p \<in> set (I md) \<and> q \<in> set (J md)) \<and> \<not> (p = q \<and> p \<in> set (S md))) \<and>
      I' sys = set (I md) \<and> J' sys = set (J md) \<and> S' sys = set (S md) \<and>
      P' sys = set (P md) \<and> Q' sys = set (Q md) \<and>
      B' sys = P' sys \<times> Q' sys)"
  using route_set_rules [of 1 1 1] by simp

theorem symbolic_route_set_counterexample:
  "\<not> isl (generate' 1 1 1) \<and>
   ''i1'' \<in> I' (projr (generate' 1 1 1)) \<and> ''j1'' \<in> J' (projr (generate' 1 1 1)) \<and>
   (''i1'', ''j1'') \<in> B' (projr (generate' 1 1 1)) \<and>
   ''s1'' \<in> S' (projr (generate' 1 1 1)) \<and>
   (''s1'', ''s1'') \<in> B' (projr (generate' 1 1 1))"
proof -
  obtain sys where sys: "generate' 1 1 1 = Inr sys"
    using generate'_positive [of 1 1 1] by auto
  note s' = generate'_sets [OF sys]
  show ?thesis
    unfolding sys using s' by (simp add: name_set_values)
qed

text \<open>
  Claim C6, as the code has it. Neither script checks its three counts, and neither ever
  raises a ConfigurationError. For positive inbound and outbound counts both generators
  return their index spaces and parameters, whatever the splitter budget: a budget that is
  not positive gives an empty set of splitters. With an inbound or outbound count of zero
  the first script stops with Python's ZeroDivisionError, in the divisions of the derived
  traffic values that come before the sets.
\<close>

theorem generation_outcome:
  "(0 < inbounds \<and> 0 < outbounds \<longrightarrow>
      (\<exists>md sys. generate inbounds outbounds splitters = Inr md \<and>
                generate' inbounds outbounds splitters = Inr sys \<and>
                (splitters \<le> 0 \<longrightarrow> S md = [] \<and> S' sys = {}))) \<and>
   (inbounds = 0 \<or> outbounds = 0 \<longrightarrow>
      generate inbounds outbounds splitters = Inl ZeroDivisionError) \<and>
   generate inbounds outbounds splitters \<noteq> Inl ConfigurationError \<and>
   generate' inbounds outbounds splitters \<noteq> Inl ConfigurationError"
proof (intro conjI impI)
  assume pos: "0 < inbounds \<and> 0 < outbounds"
  obtain md where md: "generate inbounds outbounds splitters = Inr md"
    using pos generate_positive [of inbounds outbounds splitters] by blast
  obtain sys where sys: "generate' inbounds outbounds splitters = Inr sys"
    using pos generate'_positive [of inbounds outbounds splitters] by blast
  have "S md = []" "S' sys = {}" if "splitters \<le> 0"
    using that generate_sets(3) [OF md] generate'_sets(3) [OF sys]
    by (simp_all add: init_set_def name_set_def py_range_def)
  then show "\<exists>md sys. generate inbounds outbounds splitters = Inr md \<and>
                generate' inbounds outbounds splitters = Inr sys \<and>
                (splitters \<le> 0 \<longrightarrow> S md = [] \<and> S' sys = {})"
    using md sys by blast
next
  assume "inbounds = 0 \<or> outbounds = 0"
  then show "generate inbounds outbounds splitters = Inl ZeroDivisionError"
    by (rule generate_zero)
next
  show "generate inbounds outbounds splitters \<noteq> Inl ConfigurationError"
    using generate_Inl [of inbounds outbounds splitters ConfigurationError] by auto
next
  show "generate' inbounds outbounds splitters \<noteq> Inl ConfigurationError"
    using generate'_Inl [of inbounds outbounds splitters ConfigurationError] by auto
qed

theorem generation_outcome_witness:
  "((0::int) < 1 \<and> (0::int) \<le> 0 \<and> generate 1 1 0 = Inr md110 \<and> S md110 = [] \<and>
    \<not> isl (generate' 1 1 0) \<and> S' (projr (generate' 1 1 0)) = {}) \<and>
   ((0::int) = 0 \<and> generate 0 1 1 = Inl ZeroDivisionError \<and>
    generate 0 1 1 \<noteq> Inl ConfigurationError)"
  using generation_outcome [of 1 1 0] generation_outcome [of 0 1 1]
  by (auto simp: generate_1_1_0)

theorem no_count_validation_counterexample:
  "\<not> (0::int) < 0 \<and> generate 1 1 0 = Inr md110 \<and> generate 1 1 0 \<noteq> Inl ConfigurationError"
  by (simp add: generate_1_1_0)

subsection \<open>The model without a splitter\<close>

lemma feasible_connects:
  "feasible md a \<Longrightarrow> i \<in> set (I md) \<Longrightarrow> connect_inbounds_rule md a i"
  unfolding feasible_def constraints_def by blast

text \<open>
  Claim C5, as the code has it. With one inbound belt, one outbound belt and no splitter
  the generated mixed-integer model has the belts \<open>i1\<close> and \<open>j1\<close> and no route at all: the
  one pair \<open>(i1, j1)\<close> is the bypass that \<^verbatim>\<open>B_filter\<close> rejects. The inbound belt then
  cannot be connected, so the model has no feasible assignment and no optimal value.
\<close>

theorem bypass_only_model:
  assumes "generate 1 1 0 = Inr md"
  shows "I md = [''i1''] \<and> J md = [''j1''] \<and> S md = [] \<and>
         List.product (P md) (Q md) = [(''i1'', ''j1'')] \<and>
         B_filter ''i1'' ''j1'' = Inr False \<and> B md = [] \<and>
         (\<forall>a. \<not> feasible md a)"
proof -
  have md: "md = md110"
    using assms unfolding generate_1_1_0 by simp
  have "\<not> feasible md110 a" for a
  proof
    assume "feasible md110 a"
    then have "connect_inbounds_rule md110 a ''i1''"
      by (rule feasible_connects) (simp add: md110_def)
    then show False
      by (simp add: connect_inbounds_rule_def routes_from_def md110_def)
  qed
  then show ?thesis
    unfolding md by (simp add: md110_def B_filter_values)
qed

theorem bypass_only_model_witness:
  "generate 1 1 0 = Inr md110 \<and> B md110 = [] \<and> \<not> feasible md110 a_half"
  using bypass_only_model [OF generate_1_1_0] generate_1_1_0 by simp

theorem single_route_counterexample:
  "generate 1 1 0 = Inr md110 \<and> (''i1'', ''j1'') \<notin> set (B md110) \<and> B md110 = []"
  by (simp add: generate_1_1_0) (simp add: md110_def)

subsection \<open>The printed solution\<close>

lemma print_connections_loaded:
  "print_connections (loaded ev) (loaded vv) rs =
     Inr (map (\<lambda>(p, q). (p, q, vv (p, q))) (filter (\<lambda>r. ev r > 0.5) rs))"
  by (induction rs) (auto simp: loaded_def pyo_value_def)

lemma print_connections_unloaded:
  "rs \<noteq> [] \<Longrightarrow> print_connections unloaded vs rs = Inl ValueError"
  by (cases rs) (auto simp: unloaded_def pyo_value_def)

lemma print_connections_error:
  "print_connections es vs rs = Inl err \<Longrightarrow> err = ValueError"
proof (induction rs)
  case Nil
  then show ?case by simp
next
  case (Cons r rs)
  obtain p q where r: "r = (p, q)" by (cases r)
  show ?case
    using Cons unfolding r
    by (auto simp: pyo_value_def then_do_def split: option.splits if_splits sum.splits)
qed

text \<open>
  Claim C9, as the code has it. Once a solution is loaded, the loop that prints the solution
  reports exactly the routes of \<open>B\<close> whose value of \<open>e\<close> exceeds \<open>0.5\<close>, in the order of \<open>B\<close>, each
  with its two end points and its value of \<open>v\<close>. With no solution loaded and a route to
  look at, it stops with the \<^verbatim>\<open>ValueError\<close> that \<^verbatim>\<open>pyo.value\<close> raises; whatever the value
  slots hold, it never stops with a \<^verbatim>\<open>SolutionDecodeError\<close>.
\<close>

theorem solution_printing:
  "print_connections (loaded (e a)) (loaded (v a)) (B md) =
     Inr (map (\<lambda>(p, q). (p, q, v a (p, q))) (filter (\<lambda>r. e a r > 0.5) (B md))) \<and>
   (B md \<noteq> [] \<longrightarrow> print_connections unloaded vs (B md) = Inl ValueError) \<and>
   print_connections es vs (B md) \<noteq> Inl SolutionDecodeError"
proof (intro conjI impI)
  show "print_connections (loaded (e a)) (loaded (v a)) (B md) =
     Inr (map (\<lambda>(p, q). (p, q, v a (p, q))) (filter (\<lambda>r. e a r > 0.5) (B md)))"
    by (rule print_connections_loaded)
  show "print_connections unloaded vs (B md) = Inl ValueError" if "B md \<noteq> []"
    using that by (rule print_connections_unloaded)
  show "print_connections es vs (B md) \<noteq> Inl SolutionDecodeError"
    using print_connections_error [of es vs "B md" SolutionDecodeError] by auto
qed

theorem solution_printing_witness:
  "print_connections (loaded (e a_line)) (loaded (v a_line)) (B md111) =
     Inr [(''i1'', ''s1'', 1), (''s1'', ''j1'', 1)] \<and>
   B md111 \<noteq> [] \<and> print_connections unloaded unloaded (B md111) = Inl ValueError"
  using solution_printing [where a = a_line and md = md111 and vs = unloaded]
  by (simp add: md111_def a_line_def)

theorem no_decode_error_counterexample:
  "print_connections unloaded unloaded (B md111) = Inl ValueError \<and>
   print_connections unloaded unloaded (B md111) \<noteq> Inl SolutionDecodeError"
  by (simp add: md111_def unloaded_def pyo_value_def)

subsection \<open>Bounds on traffic and inflow\<close>





lemma feasible_a_line: "feasible md111 a_line"
  unfolding feasible_def domains_def constraints_def
  by (simp add: md111_def a_line_def Binary_def PercentFraction_def NonNegativeIntegers_def
      NonNegativeReals_def routes_into_def routes_from_def define_volume_rule_def
      define_num_inputs_rule_def define_num_outputs_rule_def define_inflow_rule_def
      define_outflow_rule_def linearization_def force_xe_1_rule_def force_xe_2_rule_def
      force_xe_3_rule_def force_tz_1_rule_def force_tz_2_rule_def force_tz_3_rule_def
      split_evenly_rule_def connect_inbounds_rule_def connect_outbounds_rule_def
      consume_inbounds_rule_def produce_outbounds_rule_def respect_capacity_rule_def
      splitters_conserve_rule_def min_inputs_rule_def max_inputs_rule_def
      min_outputs_rule_def max_outputs_rule_def)



subsection \<open>Degrees of a splitter\<close>

lemma generate_1_1_2: "generate 1 1 2 = Inr md112"
  unfolding generate_def md112_def
  by (simp add: derive_def truediv_def Let_def init_set_values union_list_def inter_list_def
      B_filter_values f_init_def get_int_values PercentFraction_def default_param_def
      scalar_param_def PositiveReals_def flat_product_def)
     (simp add: fun_eq_iff)

lemma feasible_a_unused: "feasible md112 a_unused"
  unfolding feasible_def domains_def constraints_def
  by (simp add: md112_def a_unused_def Binary_def PercentFraction_def NonNegativeIntegers_def
      NonNegativeReals_def routes_into_def routes_from_def define_volume_rule_def
      define_num_inputs_rule_def define_num_outputs_rule_def define_inflow_rule_def
      define_outflow_rule_def linearization_def force_xe_1_rule_def force_xe_2_rule_def
      force_xe_3_rule_def force_tz_1_rule_def force_tz_2_rule_def force_tz_3_rule_def
      split_evenly_rule_def connect_inbounds_rule_def connect_outbounds_rule_def
      consume_inbounds_rule_def produce_outbounds_rule_def respect_capacity_rule_def
      splitters_conserve_rule_def min_inputs_rule_def max_inputs_rule_def
      min_outputs_rule_def max_outputs_rule_def)

lemma nonneg_integer_le_1:
  assumes "NonNegativeIntegers r" and "r \<le> 1"
  shows "r = 0 \<or> r = 1"
proof -
  from assms(1) have r: "0 \<le> r" "of_int \<lfloor>r\<rfloor> = r"
    unfolding NonNegativeIntegers_def by simp_all
  have "0 \<le> \<lfloor>r\<rfloor>" "\<lfloor>r\<rfloor> \<le> 1"
    using r(1) assms(2) by (simp_all add: floor_le_iff)
  then have "\<lfloor>r\<rfloor> = 0 \<or> \<lfloor>r\<rfloor> = 1" by arith
  then show ?thesis using r(2) by (metis of_int_0 of_int_1)
qed

text \<open>
  Claim C3, as the code has it. In every feasible assignment every splitter \<open>s\<close> has
  \<open>z[s] \<le> n[s] \<le> 2\<close>, where \<open>z[s]\<close> is 0 or 1; its number of output belts \<open>m[s]\<close> is 0 or 1
  when \<open>z[s] = 0\<close> and is 2 when \<open>z[s] = 1\<close>. A splitter that no belt touches
  (\<open>n[s] = 0\<close>, \<open>m[s] = 0\<close>, \<open>z[s] = 0\<close>) is allowed.
\<close>

theorem splitter_degree_bounds:
  assumes "feasible md a" and "s \<in> set (S md)"
  shows "(z a s = 0 \<or> z a s = 1) \<and> z a s \<le> n a s \<and> n a s \<le> 2 \<and>
         (z a s = 0 \<longrightarrow> m a s = 0 \<or> m a s = 1) \<and>
         (z a s = 1 \<longrightarrow> m a s = 2)"
proof -
  have zb: "Binary (z a s)" and mi: "NonNegativeIntegers (m a s)"
    using assms unfolding feasible_def domains_def by blast+
  have rules: "min_inputs_rule md a s" "max_inputs_rule md a s"
    "min_outputs_rule md a s" "max_outputs_rule md a s"
    using assms unfolding feasible_def constraints_def by blast+
  have m0: "m a s = 0 \<or> m a s = 1" if "z a s = 0"
    using rules(4) that mi unfolding max_outputs_rule_def by (intro nonneg_integer_le_1) simp_all
  have m1: "m a s = 2" if "z a s = 1"
    using rules(3,4) that unfolding min_outputs_rule_def max_outputs_rule_def by simp
  show ?thesis
    using zb rules(1,2) m0 m1 unfolding Binary_def min_inputs_rule_def max_inputs_rule_def
    by blast
qed

theorem splitter_degree_bounds_witness:
  "generate 1 1 1 = Inr md111 \<and> feasible md111 a_line \<and> ''s1'' \<in> set (S md111) \<and>
   z a_line ''s1'' = 0 \<and> z a_line ''s1'' \<le> n a_line ''s1'' \<and> n a_line ''s1'' \<le> 2 \<and>
   (m a_line ''s1'' = 0 \<or> m a_line ''s1'' = 1)"
  using splitter_degree_bounds [OF feasible_a_line, of "''s1''"] generate_1_1_1 feasible_a_line
  by (simp add: md111_def a_line_def)

theorem unused_splitter_counterexample:
  "generate 1 1 2 = Inr md112 \<and> feasible md112 a_unused \<and> ''s2'' \<in> set (S md112) \<and>
   n a_unused ''s2'' = 0 \<and> \<not> 1 \<le> n a_unused ''s2'' \<and>
   z a_unused ''s2'' = 0 \<and> m a_unused ''s2'' = 0 \<and> m a_unused ''s2'' \<noteq> 1"
  using generate_1_1_2 feasible_a_unused
  by (simp add: md112_def a_unused_def)

subsection \<open>Supply and demand\<close>










end
